theory Spec2Isabelle
  imports Complex_Main
begin

section \<open>Channel listings of products and variants\<close>

text \<open>
  A shallow embedding of \<^verbatim>\<open>saleor/graphql/product/mutations/channels.py\<close>: the two
  mutations \<^verbatim>\<open>ProductChannelListingUpdate\<close> and \<^verbatim>\<open>ProductVaraintChannelListingUpdate\<close>.
  Both classes name their methods \<^verbatim>\<open>clean_channels\<close>, \<^verbatim>\<open>save\<close> and
  \<^verbatim>\<open>perform_mutation\<close>; here the methods of the first class carry the prefix
  \<open>product_\<close> and those of the second the prefix \<open>variant_\<close> where the names clash.
  The methods \<^verbatim>\<open>add_channels\<close> and \<^verbatim>\<open>remove_channels\<close> are \<open>add_channels_rows\<close> and
  \<open>remove_channels_rows\<close>, since \<open>add_channels\<close> and \<open>remove_channels\<close> are the keys of the
  cleaned input; the field \<^verbatim>\<open>channel_id\<close> of the variant's input is \<open>vchannel_id\<close>.

  Python dictionaries that the code mutates (the \<^verbatim>\<open>errors\<close> mapping) are passed in and
  returned; a raised \<^verbatim>\<open>ValidationError\<close> is the \<open>Inl\<close> branch of a sum; the two database
  tables are lists of rows carried in a record \<open>db\<close>.
\<close>

subsection \<open>Data model\<close>

type_synonym date = string
type_synonym global_id = string

text \<open>Rows of the tables that the mutations only read.\<close>

record channel =
  channel_pk :: int
  currency_code :: string

record product =
  product_pk :: int
  category :: "int option"

record product_variant =
  variant_pk :: int
  product_id :: int

text \<open>Rows of the two tables that the mutations write.\<close>

record product_channel_listing =
  pcl_product :: int
  pcl_channel :: int
  pcl_is_published :: bool
  pcl_publication_date :: "date option"

record product_variant_channel_listing =
  vcl_variant :: int
  vcl_channel :: int
  price_amount :: "rat option"
  currency :: string

record db =
  product_channel_listings :: "product_channel_listing list"
  variant_channel_listings :: "product_variant_channel_listing list"

text \<open>
  The identifier resolution service (a collaborator outside the module): it maps an
  opaque external identifier of the expected kind to the entity, or finds nothing.
\<close>

record env =
  channel_node :: "global_id \<Rightarrow> channel option"
  product_node :: "global_id \<Rightarrow> product option"
  variant_node :: "global_id \<Rightarrow> product_variant option"

text \<open>The inputs of the two mutations (\<^verbatim>\<open>graphene.InputObjectType\<close> classes).\<close>

record product_channel_listing_add_input =
  channel_id :: global_id
  is_published :: bool
  publication_date :: "date option"

text \<open>Both lists are \<^verbatim>\<open>required=False\<close>: \<open>None\<close> is an absent key.\<close>

record product_channel_listing_update_input =
  add_channels_in :: "product_channel_listing_add_input list option"
  remove_channels_in :: "global_id list option"

text \<open>
  The price is read with \<^verbatim>\<open>.get("price")\<close> and tested against \<^verbatim>\<open>None\<close>, so it is
  optional in the model; a \<^verbatim>\<open>Decimal\<close> is a rational number.
\<close>

record product_variant_channel_listing_add_input =
  vchannel_id :: global_id
  price :: "rat option"

subsection \<open>Validation errors\<close>

datatype product_error_code =
  DUPLICATED_INPUT_ITEM
  | NOT_FOUND
  | PRODUCT_WITHOUT_CATEGORY
  | PRODUCT_NOT_ASSIGNED_TO_CHANNEL
  | INVALID

text \<open>
  A \<^verbatim>\<open>ValidationError(message, code=..., params={"channels": ...})\<close>.
\<close>

record validation_error =
  message :: string
  code :: product_error_code
  params_channels :: "global_id list"

text \<open>
  \<^verbatim>\<open>ErrorType = DefaultDict[str, List[ValidationError]]\<close>: the keys in insertion order,
  each with its list. \<^verbatim>\<open>if errors:\<close> is \<open>errors \<noteq> []\<close>.
\<close>

type_synonym error_type = "(string \<times> validation_error list) list"

text \<open>\<^verbatim>\<open>errors[field].append(e)\<close> on a \<^verbatim>\<open>defaultdict(list)\<close>.\<close>

fun errors_append :: "error_type \<Rightarrow> string \<Rightarrow> validation_error \<Rightarrow> error_type" where
  "errors_append [] field e = [(field, [e])]"
| "errors_append ((k, es) # rest) field e =
     (if k = field then (k, es @ [e]) # rest else (k, es) # errors_append rest field e)"

text \<open>Every failure held by the mapping, field after field.\<close>

definition all_errors :: "error_type \<Rightarrow> validation_error list" where
  "all_errors errors = concat (map snd errors)"

subsection \<open>Helpers imported by the module\<close>

text \<open>
  Modelled from the spec: \<^verbatim>\<open>get_duplicates_ids\<close> of \<^verbatim>\<open>graphql/core/utils\<close>, which is
  not among the sources. The spec: the identifiers that appear in both the add-set and
  the remove-set. The caller turns the result into a list; the order of that list is
  the order of first occurrence in the first argument here, and no theorem depends on it.
\<close>

definition get_duplicates_ids :: "global_id list \<Rightarrow> global_id list \<Rightarrow> global_id list" where
  "get_duplicates_ids first_list second_list =
     remdups (filter (\<lambda>x. x \<in> set second_list) first_list)"

text \<open>
  Modelled from the spec: \<^verbatim>\<open>get_duplicated_values\<close> of \<^verbatim>\<open>graphql/core/utils\<close>, which is
  not among the sources. The spec: the identifiers that a list repeats.
\<close>

definition get_duplicated_values :: "global_id list \<Rightarrow> global_id list" where
  "get_duplicated_values values_list =
     remdups (filter (\<lambda>v. 1 < count_list values_list v) values_list)"

text \<open>
  Modelled from the spec: \<^verbatim>\<open>BaseMutation.get_nodes_or_error\<close>, which is not among the
  sources. The spec: every identifier is resolved to a Channel entity, failing with
  "channel not found" where resolution fails. The call sites hand it the identifiers, a
  field name and the node type, never the \<^verbatim>\<open>errors\<close> mapping, and use what it returns as
  the list of nodes: a failure can only leave it as a raised \<^verbatim>\<open>ValidationError\<close>, here
  \<open>Inl\<close>, keyed by the field name and naming the identifiers that did not resolve.
\<close>

definition get_nodes_or_error ::
    "env \<Rightarrow> global_id list \<Rightarrow> string \<Rightarrow> error_type + channel list" where
  "get_nodes_or_error e ids field =
     (if \<forall>i \<in> set ids. channel_node e i \<noteq> None
      then Inr (map (\<lambda>i. the (channel_node e i)) ids)
      else Inl [(field,
                 [\<lparr>message = ''Could not resolve to a node.'',
                   code = NOT_FOUND,
                   params_channels = filter (\<lambda>i. channel_node e i = None) ids\<rparr>])])"

text \<open>
  Modelled from the spec: \<^verbatim>\<open>BaseMutation.get_node_or_error\<close> for the target of the
  mutation (the product or the variant), which is not among the sources; it returns the
  node or raises.
\<close>

definition get_node_or_error :: "(global_id \<Rightarrow> 'a option) \<Rightarrow> global_id \<Rightarrow> string \<Rightarrow> error_type + 'a" where
  "get_node_or_error node_of i field =
     (case node_of i of
        None \<Rightarrow> Inl [(field,
                      [\<lparr>message = ''Could not resolve to a node.'',
                        code = NOT_FOUND,
                        params_channels = []\<rparr>])]
      | Some n \<Rightarrow> Inr n)"

text \<open>
  Modelled from the spec: \<^verbatim>\<open>resolve_global_ids_to_primary_keys\<close> of \<^verbatim>\<open>graphql/utils\<close>,
  which is not among the sources. The spec: every remove-set identifier is resolved to
  an internal key, and an identifier that does not resolve is dropped without an error.
\<close>

definition resolve_global_ids_to_primary_keys :: "env \<Rightarrow> global_id list \<Rightarrow> int list" where
  "resolve_global_ids_to_primary_keys e ids =
     List.map_filter (\<lambda>i. map_option channel_pk (channel_node e i)) ids"

subsection \<open>The storage primitives\<close>

text \<open>
  The primitives of the persistence layer (Django's ORM, outside the repository), as
  the spec describes them: an upsert inserts the row if its key is absent and updates it
  otherwise; a delete removes the rows it finds and is silent when there are none.

  \<^verbatim>\<open>ProductChannelListing.objects.update_or_create(product=, channel=, defaults=)\<close>:
  the row with that key takes the new attributes, and a row is created when there is
  none. The table is meant to hold one row per key; should it hold several, all of them
  take the attributes here (the ORM would raise).
\<close>

definition pcl_update_or_create ::
    "product_channel_listing list \<Rightarrow> int \<Rightarrow> int \<Rightarrow> bool \<Rightarrow> date option
       \<Rightarrow> product_channel_listing list" where
  "pcl_update_or_create rows p c pub d =
     (if \<exists>r \<in> set rows. pcl_product r = p \<and> pcl_channel r = c
      then map (\<lambda>r. if pcl_product r = p \<and> pcl_channel r = c
                     then r\<lparr>pcl_is_published := pub, pcl_publication_date := d\<rparr>
                     else r) rows
      else rows @ [\<lparr>pcl_product = p, pcl_channel = c,
                     pcl_is_published = pub, pcl_publication_date = d\<rparr>])"

text \<open>
  \<^verbatim>\<open>ProductVariantChannelListing.objects.update_or_create(variant=, channel=, defaults=)\<close>.
\<close>

definition vcl_update_or_create ::
    "product_variant_channel_listing list \<Rightarrow> int \<Rightarrow> int \<Rightarrow> rat option \<Rightarrow> string
       \<Rightarrow> product_variant_channel_listing list" where
  "vcl_update_or_create rows v c amount cur =
     (if \<exists>r \<in> set rows. vcl_variant r = v \<and> vcl_channel r = c
      then map (\<lambda>r. if vcl_variant r = v \<and> vcl_channel r = c
                     then r\<lparr>price_amount := amount, currency := cur\<rparr>
                     else r) rows
      else rows @ [\<lparr>vcl_variant = v, vcl_channel = c,
                     price_amount = amount, currency = cur\<rparr>])"

subsection \<open>\<^verbatim>\<open>ProductChannelListingUpdate\<close>\<close>

definition validate_duplicated_ids ::
    "global_id list \<Rightarrow> global_id list \<Rightarrow> error_type \<Rightarrow> error_type" where
  "validate_duplicated_ids add_channels_ids remove_channels_ids errors =
     (let duplicated_ids = get_duplicates_ids add_channels_ids remove_channels_ids
      in if duplicated_ids \<noteq> []
         then errors_append errors ''input''
                \<lparr>message = ''The same object cannot be in both lists for adding and removing items.'',
                 code = DUPLICATED_INPUT_ITEM,
                 params_channels = duplicated_ids\<rparr>
         else errors)"

definition validate_duplicated_values ::
    "global_id list \<Rightarrow> string \<Rightarrow> error_type \<Rightarrow> error_type" where
  "validate_duplicated_values channels_ids field_name errors =
     (let duplicates = get_duplicated_values channels_ids
      in if duplicates \<noteq> []
         then errors_append errors field_name
                \<lparr>message = ''Duplicated channel ID.'',
                 code = DUPLICATED_INPUT_ITEM,
                 params_channels = duplicates\<rparr>
         else errors)"

text \<open>
  The cleaned input. Each add entry is the submitted entry together with the channel
  stored under its key \<^verbatim>\<open>"channel"\<close>. Every read of the dictionary is a
  \<^verbatim>\<open>.get(key, [])\<close>, so the empty dictionary \<^verbatim>\<open>{}\<close> reads as two empty lists.
\<close>

record cleaned_input =
  add_channels :: "(product_channel_listing_add_input \<times> channel) list"
  remove_channels :: "int list"

definition empty_cleaned_input :: cleaned_input where
  "empty_cleaned_input = \<lparr>add_channels = [], remove_channels = []\<rparr>"

definition product_clean_channels ::
    "env \<Rightarrow> product_channel_listing_update_input \<Rightarrow> error_type
       \<Rightarrow> error_type + (cleaned_input \<times> error_type)" where
  "product_clean_channels e input errors0 =
     (let add_chs = (case add_channels_in input of None \<Rightarrow> [] | Some xs \<Rightarrow> xs);
          add_channels_ids = map channel_id add_chs;
          remove_channels_ids = (case remove_channels_in input of None \<Rightarrow> [] | Some xs \<Rightarrow> xs);
          errors1 = validate_duplicated_ids add_channels_ids remove_channels_ids errors0;
          errors2 = validate_duplicated_values add_channels_ids ''add_channels'' errors1;
          errors3 = validate_duplicated_values remove_channels_ids ''remove_channels'' errors2
      in if errors3 \<noteq> [] then Inr (empty_cleaned_input, errors3)
         else
           (case (if add_channels_ids \<noteq> []
                  then get_nodes_or_error e add_channels_ids ''channel_id''
                  else Inr []) of
              Inl raised \<Rightarrow> Inl raised
            | Inr channels_to_add \<Rightarrow>
                Inr (\<lparr>add_channels = zip add_chs channels_to_add,
                      remove_channels =
                        resolve_global_ids_to_primary_keys e remove_channels_ids\<rparr>,
                     errors3)))"

definition validate_product_without_category ::
    "cleaned_input \<Rightarrow> error_type \<Rightarrow> error_type" where
  "validate_product_without_category cleaned errors =
     (let channels_with_published_product_without_category =
            map (\<lambda>(a, c). channel_id a)
              (filter (\<lambda>(a, c). is_published a) (add_channels cleaned))
      in if channels_with_published_product_without_category \<noteq> []
         then errors_append errors ''is_published''
                \<lparr>message = ''You must select a category to be able to publish.'',
                 code = PRODUCT_WITHOUT_CATEGORY,
                 params_channels = channels_with_published_product_without_category\<rparr>
         else errors)"

text \<open>
  \<^verbatim>\<open>add_channels\<close>: the loop over the cleaned add entries, one upsert each;
  \<^verbatim>\<open>add_channel.get("publication_date", None)\<close> is the optional field itself.
\<close>

fun add_channels_rows ::
    "product_channel_listing list \<Rightarrow> product
       \<Rightarrow> (product_channel_listing_add_input \<times> channel) list
       \<Rightarrow> product_channel_listing list" where
  "add_channels_rows rows p [] = rows"
| "add_channels_rows rows p ((a, c) # rest) =
     add_channels_rows
       (pcl_update_or_create rows (product_pk p) (channel_pk c)
          (is_published a) (publication_date a))
       p rest"

text \<open>
  \<^verbatim>\<open>remove_channels\<close>:
  \<^verbatim>\<open>ProductChannelListing.objects.filter(product=product, channel_id__in=remove_channels).delete()\<close>.
\<close>

definition remove_channels_rows ::
    "product_channel_listing list \<Rightarrow> product \<Rightarrow> int list \<Rightarrow> product_channel_listing list" where
  "remove_channels_rows rows p pks =
     filter (\<lambda>r. \<not> (pcl_product r = product_pk p \<and> pcl_channel r \<in> set pks)) rows"

text \<open>
  \<^verbatim>\<open>save\<close>, inside \<^verbatim>\<open>transaction.atomic()\<close>: the upserts, then the deletes. The primitives
  of the model do not fail, so there is nothing to roll back.
\<close>

definition product_save :: "db \<Rightarrow> product \<Rightarrow> cleaned_input \<Rightarrow> db" where
  "product_save d p cleaned =
     d\<lparr>product_channel_listings :=
         remove_channels_rows
           (add_channels_rows (product_channel_listings d) p (add_channels cleaned))
           p (remove_channels cleaned)\<rparr>"

text \<open>
  The result is what the mutation returns or raises, next to the database it leaves.
\<close>

definition product_perform_mutation ::
    "env \<Rightarrow> db \<Rightarrow> global_id \<Rightarrow> product_channel_listing_update_input
       \<Rightarrow> (error_type + product) \<times> db" where
  "product_perform_mutation e d i input =
     (case get_node_or_error (product_node e) i ''id'' of
        Inl raised \<Rightarrow> (Inl raised, d)
      | Inr p \<Rightarrow>
          (case product_clean_channels e input [] of
             Inl raised \<Rightarrow> (Inl raised, d)
           | Inr (cleaned, errors1) \<Rightarrow>
               (let errors2 = (if category p = None
                               then validate_product_without_category cleaned errors1
                               else errors1)
                in if errors2 \<noteq> [] then (Inl errors2, d)
                   else (Inr p, product_save d p cleaned))))"

subsection \<open>\<^verbatim>\<open>ProductVaraintChannelListingUpdate\<close>\<close>

definition variant_clean_channels ::
    "env \<Rightarrow> product_variant_channel_listing_add_input list \<Rightarrow> error_type
       \<Rightarrow> error_type + ((product_variant_channel_listing_add_input \<times> channel) list \<times> error_type)" where
  "variant_clean_channels e input errors =
     (let add_channels_ids = map vchannel_id input;
          duplicates = get_duplicated_values add_channels_ids
      in if duplicates \<noteq> []
         then Inr ([], errors_append errors ''channelId''
                         \<lparr>message = ''Duplicated channel ID.'',
                          code = DUPLICATED_INPUT_ITEM,
                          params_channels = duplicates\<rparr>)
         else
           (case (if add_channels_ids \<noteq> []
                  then get_nodes_or_error e add_channels_ids ''channel_id''
                  else Inr []) of
              Inl raised \<Rightarrow> Inl raised
            | Inr channels \<Rightarrow> Inr (zip input channels, errors)))"

definition validate_product_assigned_to_channel ::
    "db \<Rightarrow> product_variant
       \<Rightarrow> (product_variant_channel_listing_add_input \<times> channel) list
       \<Rightarrow> error_type \<Rightarrow> error_type" where
  "validate_product_assigned_to_channel d variant cleaned errors =
     (let channel_pks = map (\<lambda>(a, c). channel_pk c) cleaned;
          channels_assigned_to_product =
            map pcl_channel
              (filter (\<lambda>r. pcl_product r = product_id variant) (product_channel_listings d));
          channels_not_assigned_to_product =
            set channel_pks - set channels_assigned_to_product
      in if channels_not_assigned_to_product \<noteq> {}
         then errors_append errors ''input''
                \<lparr>message = ''Product not available in channels.'',
                 code = PRODUCT_NOT_ASSIGNED_TO_CHANNEL,
                 params_channels =
                   map (\<lambda>(a, c). vchannel_id a)
                     (filter (\<lambda>(a, c). channel_pk c \<in> channels_not_assigned_to_product)
                        cleaned)\<rparr>
         else errors)"

definition clean_prices ::
    "(product_variant_channel_listing_add_input \<times> channel) list \<Rightarrow> error_type
       \<Rightarrow> (product_variant_channel_listing_add_input \<times> channel) list \<times> error_type" where
  "clean_prices cleaned errors =
     (let channels_with_invalid_price =
            map (\<lambda>(a, c). vchannel_id a)
              (filter (\<lambda>(a, c). case price a of None \<Rightarrow> False | Some p \<Rightarrow> p < 0) cleaned)
      in if channels_with_invalid_price \<noteq> []
         then (cleaned, errors_append errors ''price''
                          \<lparr>message = ''Product price cannot be lower than 0.'',
                           code = INVALID,
                           params_channels = channels_with_invalid_price\<rparr>)
         else (cleaned, errors))"

text \<open>The loop of \<^verbatim>\<open>save\<close>: one upsert per cleaned entry.\<close>

fun variant_save_rows ::
    "product_variant_channel_listing list \<Rightarrow> product_variant
       \<Rightarrow> (product_variant_channel_listing_add_input \<times> channel) list
       \<Rightarrow> product_variant_channel_listing list" where
  "variant_save_rows rows v [] = rows"
| "variant_save_rows rows v ((a, c) # rest) =
     variant_save_rows
       (vcl_update_or_create rows (variant_pk v) (channel_pk c) (price a) (currency_code c))
       v rest"

definition variant_save ::
    "db \<Rightarrow> product_variant
       \<Rightarrow> (product_variant_channel_listing_add_input \<times> channel) list \<Rightarrow> db" where
  "variant_save d v cleaned =
     d\<lparr>variant_channel_listings := variant_save_rows (variant_channel_listings d) v cleaned\<rparr>"

definition variant_perform_mutation ::
    "env \<Rightarrow> db \<Rightarrow> global_id \<Rightarrow> product_variant_channel_listing_add_input list
       \<Rightarrow> (error_type + product_variant) \<times> db" where
  "variant_perform_mutation e d i input =
     (case get_node_or_error (variant_node e) i ''id'' of
        Inl raised \<Rightarrow> (Inl raised, d)
      | Inr variant \<Rightarrow>
          (case variant_clean_channels e input [] of
             Inl raised \<Rightarrow> (Inl raised, d)
           | Inr (cleaned1, errors1) \<Rightarrow>
               (let errors2 = validate_product_assigned_to_channel d variant cleaned1 errors1;
                    (cleaned2, errors3) = clean_prices cleaned1 errors2
                in if errors3 \<noteq> [] then (Inl errors3, d)
                   else (Inr variant, variant_save d variant cleaned2))))"

subsection \<open>A small shop for the concrete scenarios\<close>

text \<open>
  Three channels; \<open>''A2''\<close> is a second external identifier of channel A. Product
  \<open>''P''\<close> has no category, product \<open>''Q''\<close> has one, and the variant \<open>''V''\<close> belongs to
  product \<open>''Q''\<close>. Nothing else resolves.
\<close>

definition chan_A :: channel where
  "chan_A = \<lparr>channel_pk = 1, currency_code = ''USD''\<rparr>"

definition chan_B :: channel where
  "chan_B = \<lparr>channel_pk = 2, currency_code = ''EUR''\<rparr>"

definition chan_C :: channel where
  "chan_C = \<lparr>channel_pk = 3, currency_code = ''PLN''\<rparr>"

definition prod_P :: product where
  "prod_P = \<lparr>product_pk = 10, category = None\<rparr>"

definition prod_Q :: product where
  "prod_Q = \<lparr>product_pk = 11, category = Some 5\<rparr>"

definition var_V :: product_variant where
  "var_V = \<lparr>variant_pk = 100, product_id = 11\<rparr>"

definition shop :: env where
  "shop =
     \<lparr>channel_node = (\<lambda>i. if i = ''A'' \<or> i = ''A2'' then Some chan_A
                          else if i = ''B'' then Some chan_B
                          else if i = ''C'' then Some chan_C else None),
      product_node = (\<lambda>i. if i = ''P'' then Some prod_P
                          else if i = ''Q'' then Some prod_Q else None),
      variant_node = (\<lambda>i. if i = ''V'' then Some var_V else None)\<rparr>"

definition empty_db :: db where
  "empty_db = \<lparr>product_channel_listings = [], variant_channel_listings = []\<rparr>"

text \<open>Product \<open>''Q''\<close> listed on the channels A and B, unpublished.\<close>

definition db_AB :: db where
  "db_AB =
     \<lparr>product_channel_listings =
        [\<lparr>pcl_product = 11, pcl_channel = 1, pcl_is_published = False,
          pcl_publication_date = None\<rparr>,
         \<lparr>pcl_product = 11, pcl_channel = 2, pcl_is_published = False,
          pcl_publication_date = None\<rparr>],
      variant_channel_listings = []\<rparr>"

section \<open>Auxiliary facts\<close>

subsection \<open>The error mapping and the duplicate helpers\<close>

lemma errors_append_not_Nil: "errors_append es f x \<noteq> []"
  by (cases es) (auto split: if_splits)

lemma set_all_errors_append:
  "set (all_errors (errors_append es f x)) = insert x (set (all_errors es))"
  by (induction es f x rule: errors_append.induct) (auto simp: all_errors_def)

lemma distinct_count_list: "distinct xs \<longleftrightarrow> (\<forall>x. count_list xs x \<le> 1)"
proof (induction xs)
  case Nil
  show ?case by simp
next
  case (Cons a xs)
  show ?case
  proof
    assume d: "distinct (a # xs)"
    then have "a \<notin> set xs" and "\<forall>x. count_list xs x \<le> 1"
      using Cons.IH by auto
    then show "\<forall>x. count_list (a # xs) x \<le> 1"
      by (auto simp: count_list_0_iff)
  next
    assume c: "\<forall>x. count_list (a # xs) x \<le> 1"
    have "count_list xs a = 0"
      using c[rule_format, of a] by simp
    then have na: "a \<notin> set xs"
      by (simp add: count_list_0_iff)
    have "\<forall>x. count_list xs x \<le> 1"
    proof
      fix x
      show "count_list xs x \<le> 1"
        using c[rule_format, of x] by (simp split: if_splits)
    qed
    then show "distinct (a # xs)"
      using na Cons.IH by simp
  qed
qed

lemma set_get_duplicated_values:
  "set (get_duplicated_values xs) = {v. 1 < count_list xs v}"
proof -
  have "\<And>v. 1 < count_list xs v \<Longrightarrow> v \<in> set xs"
    by (rule ccontr) (simp add: count_list_0_iff)
  then show ?thesis
    unfolding get_duplicated_values_def by auto
qed

lemma get_duplicated_values_Nil_iff: "get_duplicated_values xs = [] \<longleftrightarrow> distinct xs"
proof -
  have "get_duplicated_values xs = [] \<longleftrightarrow> set (get_duplicated_values xs) = {}"
    by simp
  also have "\<dots> \<longleftrightarrow> (\<forall>x. count_list xs x \<le> 1)"
    unfolding set_get_duplicated_values by (auto simp: not_less)
  finally show ?thesis
    by (simp add: distinct_count_list)
qed

lemma set_get_duplicates_ids: "set (get_duplicates_ids xs ys) = set xs \<inter> set ys"
  by (auto simp: get_duplicates_ids_def)

lemma get_duplicates_ids_Nil_iff: "get_duplicates_ids xs ys = [] \<longleftrightarrow> set xs \<inter> set ys = {}"
  using set_get_duplicates_ids[of xs ys] by (metis set_empty)

lemma set_pcl_update_or_create:
  "set (pcl_update_or_create rows p c pub d) =
     {r \<in> set rows. \<not> (pcl_product r = p \<and> pcl_channel r = c)}
     \<union> {\<lparr>pcl_product = p, pcl_channel = c, pcl_is_published = pub, pcl_publication_date = d\<rparr>}"
  unfolding pcl_update_or_create_def by (auto simp: image_iff)

lemma keys_pcl_update_or_create:
  "map (\<lambda>r. (pcl_product r, pcl_channel r)) (pcl_update_or_create rows p c pub d) =
     (if (p, c) \<in> set (map (\<lambda>r. (pcl_product r, pcl_channel r)) rows)
      then map (\<lambda>r. (pcl_product r, pcl_channel r)) rows
      else map (\<lambda>r. (pcl_product r, pcl_channel r)) rows @ [(p, c)])"
  unfolding pcl_update_or_create_def by (auto simp: image_iff)

lemmas shop_defs = shop_def chan_A_def chan_B_def chan_C_def prod_P_def prod_Q_def var_V_def
  empty_db_def db_AB_def

lemma map_of_errors_append:
  "map_of (errors_append es f x) g =
     (if g = f then Some ((case map_of es f of None \<Rightarrow> [] | Some l \<Rightarrow> l) @ [x])
      else map_of es g)"
  by (induction es f x rule: errors_append.induct) auto

lemma validate_duplicated_values_distinct:
  "distinct ids \<Longrightarrow> validate_duplicated_values ids f errs = errs"
  by (simp add: validate_duplicated_values_def get_duplicated_values_Nil_iff)

lemma validate_duplicated_values_dup:
  "\<not> distinct ids \<Longrightarrow>
     validate_duplicated_values ids f errs =
       errors_append errs f
         \<lparr>message = ''Duplicated channel ID.'', code = DUPLICATED_INPUT_ITEM,
          params_channels = get_duplicated_values ids\<rparr>"
  by (simp add: validate_duplicated_values_def get_duplicated_values_Nil_iff)

lemma validate_duplicated_ids_disjoint:
  "set a \<inter> set r = {} \<Longrightarrow> validate_duplicated_ids a r errs = errs"
  by (simp add: validate_duplicated_ids_def get_duplicates_ids_Nil_iff)

lemma validate_duplicated_ids_common:
  "set a \<inter> set r \<noteq> {} \<Longrightarrow>
     validate_duplicated_ids a r errs =
       errors_append errs ''input''
         \<lparr>message = ''The same object cannot be in both lists for adding and removing items.'',
          code = DUPLICATED_INPUT_ITEM,
          params_channels = get_duplicates_ids a r\<rparr>"
  by (simp add: validate_duplicated_ids_def get_duplicates_ids_Nil_iff)

lemma code_validate_duplicated_values:
  "\<forall>x \<in> set (all_errors errs). code x = DUPLICATED_INPUT_ITEM \<Longrightarrow>
   \<forall>x \<in> set (all_errors (validate_duplicated_values ids f errs)). code x = DUPLICATED_INPUT_ITEM"
  by (cases "distinct ids")
     (simp_all add: validate_duplicated_values_distinct validate_duplicated_values_dup
        set_all_errors_append)

lemma code_validate_duplicated_ids:
  "\<forall>x \<in> set (all_errors errs). code x = DUPLICATED_INPUT_ITEM \<Longrightarrow>
   \<forall>x \<in> set (all_errors (validate_duplicated_ids a r errs)). code x = DUPLICATED_INPUT_ITEM"
  by (cases "set a \<inter> set r = {}")
     (simp_all add: validate_duplicated_ids_disjoint validate_duplicated_ids_common
        set_all_errors_append)

lemma map_of_validate_duplicated_ids:
  "f \<noteq> ''input'' \<Longrightarrow> map_of (validate_duplicated_ids a r errs) f = map_of errs f"
  by (cases "set a \<inter> set r = {}")
     (simp_all add: validate_duplicated_ids_disjoint validate_duplicated_ids_common
        map_of_errors_append)

lemma map_of_validate_duplicated_values:
  "f \<noteq> g \<Longrightarrow> map_of (validate_duplicated_values ids g errs) f = map_of errs f"
  by (cases "distinct ids")
     (simp_all add: validate_duplicated_values_distinct validate_duplicated_values_dup
        map_of_errors_append)

lemma validate_product_without_category_empty:
  "validate_product_without_category empty_cleaned_input errs = errs"
  by (simp add: validate_product_without_category_def empty_cleaned_input_def)

text \<open>The errors of the three structural checks of the product mutation.\<close>

lemma product_clean_channels_structural:
  assumes "validate_duplicated_values (case remove_channels_in input of None \<Rightarrow> [] | Some xs \<Rightarrow> xs)
             ''remove_channels''
             (validate_duplicated_values
                (map channel_id (case add_channels_in input of None \<Rightarrow> [] | Some xs \<Rightarrow> xs))
                ''add_channels''
                (validate_duplicated_ids
                  (map channel_id (case add_channels_in input of None \<Rightarrow> [] | Some xs \<Rightarrow> xs))
                  (case remove_channels_in input of None \<Rightarrow> [] | Some xs \<Rightarrow> xs) [])) = errs"
    and "errs \<noteq> []"
  shows "product_clean_channels e input [] = Inr (empty_cleaned_input, errs)"
  using assms by (simp add: product_clean_channels_def Let_def)

lemma zip_map_self: "zip xs (map f xs) = map (\<lambda>x. (x, f x)) xs"
  by (induction xs) auto

lemma get_nodes_or_error_resolved:
  "\<forall>i \<in> set ids. channel_node e i \<noteq> None \<Longrightarrow>
     get_nodes_or_error e ids f = Inr (map (\<lambda>i. the (channel_node e i)) ids)"
  by (simp add: get_nodes_or_error_def)

lemma get_nodes_or_error_unresolved:
  "\<not> (\<forall>i \<in> set ids. channel_node e i \<noteq> None) \<Longrightarrow>
     get_nodes_or_error e ids f =
       Inl [(f, [\<lparr>message = ''Could not resolve to a node.'', code = NOT_FOUND,
                  params_channels = filter (\<lambda>i. channel_node e i = None) ids\<rparr>])]"
  by (simp add: get_nodes_or_error_def)

text \<open>The clean stage of the variant mutation, case by case.\<close>

lemma variant_clean_channels_dup:
  "\<not> distinct (map vchannel_id input) \<Longrightarrow>
     variant_clean_channels e input errs =
       Inr ([], errors_append errs ''channelId''
                  \<lparr>message = ''Duplicated channel ID.'', code = DUPLICATED_INPUT_ITEM,
                   params_channels = get_duplicated_values (map vchannel_id input)\<rparr>)"
  by (simp add: variant_clean_channels_def get_duplicated_values_Nil_iff)

lemma variant_clean_channels_unresolved:
  "distinct (map vchannel_id input) \<Longrightarrow>
   \<not> (\<forall>a \<in> set input. channel_node e (vchannel_id a) \<noteq> None) \<Longrightarrow>
     variant_clean_channels e input errs =
       Inl [(''channel_id'',
             [\<lparr>message = ''Could not resolve to a node.'', code = NOT_FOUND,
               params_channels =
                 filter (\<lambda>i. channel_node e i = None) (map vchannel_id input)\<rparr>])]"
proof -
  assume d: "distinct (map vchannel_id input)"
    and u: "\<not> (\<forall>a \<in> set input. channel_node e (vchannel_id a) \<noteq> None)"
  from u have ne: "map vchannel_id input \<noteq> []"
    by auto
  from u have "\<not> (\<forall>i \<in> set (map vchannel_id input). channel_node e i \<noteq> None)"
    by simp
  from get_nodes_or_error_unresolved[OF this] d ne show ?thesis
    by (simp add: variant_clean_channels_def get_duplicated_values_Nil_iff Let_def)
qed

lemma variant_clean_channels_resolved:
  "distinct (map vchannel_id input) \<Longrightarrow>
   \<forall>a \<in> set input. channel_node e (vchannel_id a) \<noteq> None \<Longrightarrow>
     variant_clean_channels e input errs =
       Inr (map (\<lambda>a. (a, the (channel_node e (vchannel_id a)))) input, errs)"
  by (cases "input = []")
     (simp_all add: variant_clean_channels_def get_duplicated_values_Nil_iff
        get_nodes_or_error_def zip_map_self)

lemma validate_product_assigned_to_channel_eq:
  "validate_product_assigned_to_channel d v cleaned errs =
     (let missing = filter (\<lambda>(a, c). \<not> (\<exists>r \<in> set (product_channel_listings d).
                                pcl_product r = product_id v \<and> pcl_channel r = channel_pk c))
                      cleaned
      in if missing \<noteq> []
         then errors_append errs ''input''
                \<lparr>message = ''Product not available in channels.'',
                 code = PRODUCT_NOT_ASSIGNED_TO_CHANNEL,
                 params_channels = map (\<lambda>(a, c). vchannel_id a) missing\<rparr>
         else errs)"
proof -
  let ?assigned = "map pcl_channel
      (filter (\<lambda>r. pcl_product r = product_id v) (product_channel_listings d))"
  let ?na = "set (map (\<lambda>(a, c). channel_pk c) cleaned) - set ?assigned"
  let ?P = "\<lambda>(a, c). \<not> (\<exists>r \<in> set (product_channel_listings d).
              pcl_product r = product_id v \<and> pcl_channel r = channel_pk (c::channel))"
  have f: "filter (\<lambda>(a, c). channel_pk c \<in> ?na) cleaned = filter ?P cleaned"
    by (rule filter_cong[OF refl]) (force simp: image_iff)
  have "?na \<noteq> {} \<longleftrightarrow> (\<exists>x \<in> set cleaned. (\<lambda>(a, c). channel_pk c \<in> ?na) x)"
  proof
    assume "?na \<noteq> {}"
    then obtain k where k: "k \<in> ?na"
      by blast
    then obtain x where "x \<in> set cleaned" and "k = (\<lambda>(a, c). channel_pk c) x"
      by auto
    with k show "\<exists>x \<in> set cleaned. (\<lambda>(a, c). channel_pk c \<in> ?na) x"
      by (intro bexI[of _ x]) (auto split: prod.splits)
  next
    assume "\<exists>x \<in> set cleaned. (\<lambda>(a, c). channel_pk c \<in> ?na) x"
    then show "?na \<noteq> {}"
      by (auto split: prod.splits)
  qed
  also have "\<dots> \<longleftrightarrow> filter (\<lambda>(a, c). channel_pk c \<in> ?na) cleaned \<noteq> []"
    by (simp add: filter_empty_conv)
  finally have n: "?na \<noteq> {} \<longleftrightarrow> filter ?P cleaned \<noteq> []"
    unfolding f .
  show ?thesis
    unfolding validate_product_assigned_to_channel_def Let_def f n ..
qed

lemma clean_prices_eq:
  "clean_prices cleaned errs =
     (let negative = filter (\<lambda>(a, c). \<exists>p. price a = Some p \<and> p < 0) cleaned
      in (cleaned,
          if negative \<noteq> []
          then errors_append errs ''price''
                 \<lparr>message = ''Product price cannot be lower than 0.'', code = INVALID,
                  params_channels = map (\<lambda>(a, c). vchannel_id a) negative\<rparr>
          else errs))"
proof -
  have "(\<lambda>(a, c). case price a of None \<Rightarrow> False | Some p \<Rightarrow> p < 0) =
        (\<lambda>(a :: product_variant_channel_listing_add_input, c :: channel).
            \<exists>p. price a = Some p \<and> p < 0)"
    by (auto simp: fun_eq_iff split: option.splits)
  then show ?thesis
    by (simp add: clean_prices_def Let_def)
qed

text \<open>A raised error leaves the database as it was.\<close>

lemma variant_perform_mutation_no_write:
  "variant_perform_mutation e d i input = (Inl errs, d') \<Longrightarrow> d' = d"
  by (auto simp: variant_perform_mutation_def Let_def
      split: sum.splits prod.splits if_splits)

lemma product_perform_mutation_no_write:
  "product_perform_mutation e d i input = (Inl errs, d') \<Longrightarrow> d' = d"
  by (auto simp: product_perform_mutation_def Let_def
      split: sum.splits prod.splits if_splits)

lemmas variant_eval = variant_perform_mutation_def variant_clean_channels_def
  validate_product_assigned_to_channel_def clean_prices_def variant_save_def
  get_node_or_error_def get_nodes_or_error_def get_duplicated_values_def
  vcl_update_or_create_def

subsection \<open>The variant mutation\<close>

lemma variant_perform_mutation_cleaned:
  assumes "variant_node e i = Some v"
    and "distinct (map vchannel_id input)"
    and "\<forall>a \<in> set input. channel_node e (vchannel_id a) \<noteq> None"
  shows "variant_perform_mutation e d i input =
     (let cleaned = map (\<lambda>a. (a, the (channel_node e (vchannel_id a)))) input;
          errors2 = validate_product_assigned_to_channel d v cleaned [];
          errors3 = snd (clean_prices cleaned errors2)
      in if errors3 \<noteq> [] then (Inl errors3, d) else (Inr v, variant_save d v cleaned))"
  using assms
  by (simp add: variant_perform_mutation_def get_node_or_error_def
      variant_clean_channels_resolved clean_prices_eq Let_def)

lemma variant_perform_mutation_success:
  assumes run: "variant_perform_mutation e d i input = (Inr v, d')"
  shows "variant_node e i = Some v"
    and "distinct (map vchannel_id input)"
    and "\<forall>a \<in> set input. channel_node e (vchannel_id a) \<noteq> None"
    and "d' = variant_save d v (map (\<lambda>a. (a, the (channel_node e (vchannel_id a)))) input)"
    and "validate_product_assigned_to_channel d v
           (map (\<lambda>a. (a, the (channel_node e (vchannel_id a)))) input) [] = []"
    and "snd (clean_prices (map (\<lambda>a. (a, the (channel_node e (vchannel_id a)))) input) []) = []"
proof -
  show node: "variant_node e i = Some v"
    using run
    by (auto simp: variant_perform_mutation_def get_node_or_error_def Let_def
        split: option.splits sum.splits prod.splits if_splits)
  show dist: "distinct (map vchannel_id input)"
  proof (rule ccontr)
    assume "\<not> distinct (map vchannel_id input)"
    from variant_clean_channels_dup[OF this, of e "[]"] run node show False
      by (simp add: variant_perform_mutation_def get_node_or_error_def Let_def
          validate_product_assigned_to_channel_eq clean_prices_eq errors_append_not_Nil)
  qed
  show res: "\<forall>a \<in> set input. channel_node e (vchannel_id a) \<noteq> None"
  proof (rule ccontr)
    assume "\<not> (\<forall>a \<in> set input. channel_node e (vchannel_id a) \<noteq> None)"
    from variant_clean_channels_unresolved[OF dist this, of "[]"] run node show False
      by (simp add: variant_perform_mutation_def get_node_or_error_def)
  qed
  let ?cleaned = "map (\<lambda>a. (a, the (channel_node e (vchannel_id a)))) input"
  let ?e2 = "validate_product_assigned_to_channel d v ?cleaned []"
  let ?e3 = "snd (clean_prices ?cleaned ?e2)"
  have r: "(if ?e3 \<noteq> [] then (Inl ?e3, d) else (Inr v, variant_save d v ?cleaned)) = (Inr v, d')"
    using variant_perform_mutation_cleaned[OF node dist res, of d] run
    by (simp add: Let_def)
  then have e3: "?e3 = []"
    by (simp split: if_splits)
  with r show "d' = variant_save d v ?cleaned"
    by simp
  from e3 show e2: "?e2 = []"
    by (simp add: clean_prices_eq Let_def errors_append_not_Nil split: if_splits)
  from e3 e2 show "snd (clean_prices ?cleaned []) = []"
    by simp
qed

lemma set_vcl_update_or_create:
  "set (vcl_update_or_create rows v c amount cur) =
     {r \<in> set rows. \<not> (vcl_variant r = v \<and> vcl_channel r = c)}
     \<union> {\<lparr>vcl_variant = v, vcl_channel = c, price_amount = amount, currency = cur\<rparr>}"
  unfolding vcl_update_or_create_def by (auto simp: image_iff)

lemma keys_vcl_update_or_create:
  "map (\<lambda>r. (vcl_variant r, vcl_channel r)) (vcl_update_or_create rows v c amount cur) =
     (if (v, c) \<in> set (map (\<lambda>r. (vcl_variant r, vcl_channel r)) rows)
      then map (\<lambda>r. (vcl_variant r, vcl_channel r)) rows
      else map (\<lambda>r. (vcl_variant r, vcl_channel r)) rows @ [(v, c)])"
  unfolding vcl_update_or_create_def by (auto simp: image_iff)

lemma distinct_keys_vcl_update_or_create:
  "distinct (map (\<lambda>r. (vcl_variant r, vcl_channel r)) rows) \<Longrightarrow>
   distinct (map (\<lambda>r. (vcl_variant r, vcl_channel r)) (vcl_update_or_create rows v c amount cur))"
  unfolding keys_vcl_update_or_create by auto

lemma variant_save_rows_append:
  "variant_save_rows rows v (xs @ ys) = variant_save_rows (variant_save_rows rows v xs) v ys"
  by (induction xs arbitrary: rows) auto

lemma distinct_keys_variant_save_rows:
  "distinct (map (\<lambda>r. (vcl_variant r, vcl_channel r)) rows) \<Longrightarrow>
   distinct (map (\<lambda>r. (vcl_variant r, vcl_channel r)) (variant_save_rows rows v cleaned))"
  by (induction cleaned arbitrary: rows) (auto simp: distinct_keys_vcl_update_or_create)

lemma variant_save_rows_untouched:
  "\<forall>(a, c) \<in> set cleaned. \<not> (variant_pk v = w \<and> channel_pk c = k) \<Longrightarrow>
   {r \<in> set (variant_save_rows rows v cleaned). vcl_variant r = w \<and> vcl_channel r = k} =
   {r \<in> set rows. vcl_variant r = w \<and> vcl_channel r = k}"
proof (induction cleaned arbitrary: rows)
  case Nil
  show ?case by simp
next
  case (Cons x cleaned)
  obtain a c where x: "x = (a, c)"
    by (cases x)
  have "{r \<in> set (variant_save_rows rows v (x # cleaned)). vcl_variant r = w \<and> vcl_channel r = k} =
        {r \<in> set (vcl_update_or_create rows (variant_pk v) (channel_pk c) (price a)
                     (currency_code c)). vcl_variant r = w \<and> vcl_channel r = k}"
    using Cons.IH[of "vcl_update_or_create rows (variant_pk v) (channel_pk c) (price a)
                     (currency_code c)"] Cons.prems
    by (simp add: x)
  also have "\<dots> = {r \<in> set rows. vcl_variant r = w \<and> vcl_channel r = k}"
    using Cons.prems unfolding set_vcl_update_or_create x by auto
  finally show ?case .
qed

lemma variant_save_rows_last:
  assumes "\<forall>(a', c') \<in> set ys. channel_pk c' \<noteq> channel_pk c"
  shows "{r \<in> set (variant_save_rows rows v (xs @ (a, c) # ys)).
            vcl_variant r = variant_pk v \<and> vcl_channel r = channel_pk c} =
         {\<lparr>vcl_variant = variant_pk v, vcl_channel = channel_pk c,
           price_amount = price a, currency = currency_code c\<rparr>}"
proof -
  let ?rows1 = "variant_save_rows rows v xs"
  let ?rows2 = "vcl_update_or_create ?rows1 (variant_pk v) (channel_pk c) (price a)
                  (currency_code c)"
  have "variant_save_rows rows v (xs @ (a, c) # ys) = variant_save_rows ?rows2 v ys"
    by (simp add: variant_save_rows_append)
  moreover have "{r \<in> set (variant_save_rows ?rows2 v ys).
            vcl_variant r = variant_pk v \<and> vcl_channel r = channel_pk c} =
        {r \<in> set ?rows2. vcl_variant r = variant_pk v \<and> vcl_channel r = channel_pk c}"
    by (rule variant_save_rows_untouched) (use assms in auto)
  moreover have "{r \<in> set ?rows2. vcl_variant r = variant_pk v \<and> vcl_channel r = channel_pk c} =
         {\<lparr>vcl_variant = variant_pk v, vcl_channel = channel_pk c,
           price_amount = price a, currency = currency_code c\<rparr>}"
    unfolding set_vcl_update_or_create by auto
  ultimately show ?thesis
    by simp
qed

subsection \<open>The product mutation\<close>

text \<open>The errors of the three structural checks, as the clean stage accumulates them.\<close>

lemma structural_checks_Nil_iff:
  "validate_duplicated_values rs ''remove_channels''
     (validate_duplicated_values as ''add_channels'' (validate_duplicated_ids as rs [])) = []
   \<longleftrightarrow> set as \<inter> set rs = {} \<and> distinct as \<and> distinct rs"
proof (cases "set as \<inter> set rs = {}")
  case True
  show ?thesis
    by (cases "distinct as"; cases "distinct rs")
       (simp_all add: True validate_duplicated_ids_disjoint validate_duplicated_values_distinct
          validate_duplicated_values_dup errors_append_not_Nil)
next
  case False
  show ?thesis
    by (cases "distinct as"; cases "distinct rs")
       (simp_all add: False validate_duplicated_ids_common validate_duplicated_values_distinct
          validate_duplicated_values_dup errors_append_not_Nil)
qed

lemma product_clean_channels_unresolved:
  assumes "set (map channel_id adds) \<inter> set rs = {}"
    and "distinct (map channel_id adds)" and "distinct rs"
    and "add_channels_in input = Some adds"
    and "rs = (case remove_channels_in input of None \<Rightarrow> [] | Some xs \<Rightarrow> xs)"
    and "\<not> (\<forall>a \<in> set adds. channel_node e (channel_id a) \<noteq> None)"
  shows "product_clean_channels e input [] =
       Inl [(''channel_id'',
             [\<lparr>message = ''Could not resolve to a node.'', code = NOT_FOUND,
               params_channels =
                 filter (\<lambda>i. channel_node e i = None) (map channel_id adds)\<rparr>])]"
proof -
  from assms(6) have ne: "map channel_id adds \<noteq> []"
    by auto
  from assms(6) have "\<not> (\<forall>i \<in> set (map channel_id adds). channel_node e i \<noteq> None)"
    by simp
  from get_nodes_or_error_unresolved[OF this] ne assms(1-5) show ?thesis
    by (simp add: product_clean_channels_def Let_def validate_duplicated_ids_disjoint
        validate_duplicated_values_distinct)
qed

lemma product_clean_channels_resolved:
  assumes "set (map channel_id adds) \<inter> set rs = {}"
    and "distinct (map channel_id adds)" and "distinct rs"
    and "adds = (case add_channels_in input of None \<Rightarrow> [] | Some xs \<Rightarrow> xs)"
    and "rs = (case remove_channels_in input of None \<Rightarrow> [] | Some xs \<Rightarrow> xs)"
    and "\<forall>a \<in> set adds. channel_node e (channel_id a) \<noteq> None"
  shows "product_clean_channels e input [] =
       Inr (\<lparr>add_channels = map (\<lambda>a. (a, the (channel_node e (channel_id a)))) adds,
             remove_channels = resolve_global_ids_to_primary_keys e rs\<rparr>, [])"
proof -
  have s: "validate_duplicated_values rs ''remove_channels''
     (validate_duplicated_values (map channel_id adds) ''add_channels''
        (validate_duplicated_ids (map channel_id adds) rs [])) = []"
    using assms(1-3) by (simp add: structural_checks_Nil_iff)
  show ?thesis
  proof (cases "adds = []")
    case True
    with s assms(4,5) show ?thesis
      by (simp add: product_clean_channels_def Let_def)
  next
    case False
    have "get_nodes_or_error e (map channel_id adds) ''channel_id'' =
        Inr (map (\<lambda>i. the (channel_node e i)) (map channel_id adds))"
      by (rule get_nodes_or_error_resolved) (use assms(6) in simp)
    with False s assms(4,5) show ?thesis
      by (simp add: product_clean_channels_def Let_def zip_map_self)
  qed
qed

lemma validate_product_without_category_eq:
  "validate_product_without_category cleaned errs =
     (if filter (\<lambda>(a, c). is_published a) (add_channels cleaned) \<noteq> []
      then errors_append errs ''is_published''
             \<lparr>message = ''You must select a category to be able to publish.'',
              code = PRODUCT_WITHOUT_CATEGORY,
              params_channels =
                map (\<lambda>(a, c). channel_id a)
                  (filter (\<lambda>(a, c). is_published a) (add_channels cleaned))\<rparr>
      else errs)"
  by (simp add: validate_product_without_category_def Let_def)

lemma product_perform_mutation_structural:
  assumes "product_node e i = Some p"
    and "as = map channel_id (case add_channels_in input of None \<Rightarrow> [] | Some xs \<Rightarrow> xs)"
    and "rs = (case remove_channels_in input of None \<Rightarrow> [] | Some xs \<Rightarrow> xs)"
    and "\<not> (set as \<inter> set rs = {} \<and> distinct as \<and> distinct rs)"
  shows "product_perform_mutation e d i input =
     (Inl (validate_duplicated_values rs ''remove_channels''
            (validate_duplicated_values as ''add_channels''
               (validate_duplicated_ids as rs []))), d)"
proof -
  let ?errs = "validate_duplicated_values rs ''remove_channels''
            (validate_duplicated_values as ''add_channels'' (validate_duplicated_ids as rs []))"
  have ne: "?errs \<noteq> []"
    using assms(4) by (simp only: structural_checks_Nil_iff not_False_eq_True)
  have "product_clean_channels e input [] = Inr (empty_cleaned_input, ?errs)"
    by (rule product_clean_channels_structural) (simp_all add: assms(2,3) ne[unfolded assms(2,3)])
  with ne assms(1) show ?thesis
    by (simp add: product_perform_mutation_def get_node_or_error_def
        validate_product_without_category_empty)
qed

lemma product_perform_mutation_unresolved:
  assumes "product_node e i = Some p"
    and "add_channels_in input = Some adds"
    and "rs = (case remove_channels_in input of None \<Rightarrow> [] | Some xs \<Rightarrow> xs)"
    and "set (map channel_id adds) \<inter> set rs = {}"
    and "distinct (map channel_id adds)" and "distinct rs"
    and "\<not> (\<forall>a \<in> set adds. channel_node e (channel_id a) \<noteq> None)"
  shows "product_perform_mutation e d i input =
     (Inl [(''channel_id'',
             [\<lparr>message = ''Could not resolve to a node.'', code = NOT_FOUND,
               params_channels =
                 filter (\<lambda>i. channel_node e i = None) (map channel_id adds)\<rparr>])], d)"
  using product_clean_channels_unresolved[OF assms(4,5,6,2,3,7)] assms(1)
  by (simp add: product_perform_mutation_def get_node_or_error_def)

lemma product_perform_mutation_resolved:
  assumes "product_node e i = Some p"
    and "adds = (case add_channels_in input of None \<Rightarrow> [] | Some xs \<Rightarrow> xs)"
    and "rs = (case remove_channels_in input of None \<Rightarrow> [] | Some xs \<Rightarrow> xs)"
    and "set (map channel_id adds) \<inter> set rs = {}"
    and "distinct (map channel_id adds)" and "distinct rs"
    and "\<forall>a \<in> set adds. channel_node e (channel_id a) \<noteq> None"
  shows "product_perform_mutation e d i input =
     (let cleaned = \<lparr>add_channels = map (\<lambda>a. (a, the (channel_node e (channel_id a)))) adds,
                     remove_channels = resolve_global_ids_to_primary_keys e rs\<rparr>
      in if category p = None \<and> filter is_published adds \<noteq> []
         then (Inl [(''is_published'',
                     [\<lparr>message = ''You must select a category to be able to publish.'',
                       code = PRODUCT_WITHOUT_CATEGORY,
                       params_channels = map channel_id (filter is_published adds)\<rparr>])], d)
         else (Inr p, product_save d p cleaned))"
proof -
  let ?pair = "\<lambda>a. (a, the (channel_node e (channel_id a)))"
  have f: "filter (\<lambda>(a, c). is_published a) (map ?pair adds) = map ?pair (filter is_published adds)"
    by (induction adds) auto
  have m: "map (\<lambda>(a, c). channel_id a) (map ?pair xs) = map channel_id xs" for xs
    by (induction xs) auto
  show ?thesis
    using product_clean_channels_resolved[OF assms(4,5,6,2,3,7)] assms(1)
    by (simp add: product_perform_mutation_def get_node_or_error_def Let_def
        validate_product_without_category_eq f m)
qed

lemmas product_eval = product_perform_mutation_def product_clean_channels_def
  validate_duplicated_ids_def validate_duplicated_values_def
  validate_product_without_category_def product_save_def remove_channels_rows_def
  get_node_or_error_def get_nodes_or_error_def get_duplicated_values_def
  get_duplicates_ids_def resolve_global_ids_to_primary_keys_def pcl_update_or_create_def
  empty_cleaned_input_def List.map_filter_def

lemma variant_perform_mutation_dup:
  assumes "variant_node e i = Some v" and "\<not> distinct (map vchannel_id input)"
  shows "variant_perform_mutation e d i input =
     (Inl [(''channelId'',
            [\<lparr>message = ''Duplicated channel ID.'', code = DUPLICATED_INPUT_ITEM,
              params_channels = get_duplicated_values (map vchannel_id input)\<rparr>])], d)"
  using variant_clean_channels_dup[OF assms(2), of e "[]"] assms(1)
  by (simp add: variant_perform_mutation_def get_node_or_error_def Let_def
      validate_product_assigned_to_channel_eq clean_prices_eq)

lemma variant_perform_mutation_unresolved:
  assumes "variant_node e i = Some v" and "distinct (map vchannel_id input)"
    and "\<not> (\<forall>a \<in> set input. channel_node e (vchannel_id a) \<noteq> None)"
  shows "variant_perform_mutation e d i input =
     (Inl [(''channel_id'',
             [\<lparr>message = ''Could not resolve to a node.'', code = NOT_FOUND,
               params_channels =
                 filter (\<lambda>i. channel_node e i = None) (map vchannel_id input)\<rparr>])], d)"
  using variant_clean_channels_unresolved[OF assms(2,3), of "[]"] assms(1)
  by (simp add: variant_perform_mutation_def get_node_or_error_def)

lemma variant_perform_mutation_resolved:
  assumes "variant_node e i = Some v"
    and "distinct (map vchannel_id input)"
    and "\<forall>a \<in> set input. channel_node e (vchannel_id a) \<noteq> None"
  shows "variant_perform_mutation e d i input =
     (let cleaned = map (\<lambda>a. (a, the (channel_node e (vchannel_id a)))) input;
          missing = filter (\<lambda>(a, c). \<not> (\<exists>r \<in> set (product_channel_listings d).
                               pcl_product r = product_id v \<and> pcl_channel r = channel_pk c))
                      cleaned;
          negative = filter (\<lambda>(a, c). \<exists>p. price a = Some p \<and> p < 0) cleaned
      in if missing = [] \<and> negative = []
         then (Inr v, variant_save d v cleaned)
         else (Inl ((if missing \<noteq> []
                     then [(''input'',
                            [\<lparr>message = ''Product not available in channels.'',
                              code = PRODUCT_NOT_ASSIGNED_TO_CHANNEL,
                              params_channels = map (\<lambda>(a, c). vchannel_id a) missing\<rparr>])]
                     else [])
                    @ (if negative \<noteq> []
                       then [(''price'',
                              [\<lparr>message = ''Product price cannot be lower than 0.'',
                                code = INVALID,
                                params_channels = map (\<lambda>(a, c). vchannel_id a) negative\<rparr>])]
                       else [])),
               d))"
  unfolding variant_perform_mutation_cleaned[OF assms]
    validate_product_assigned_to_channel_eq clean_prices_eq Let_def
  by (simp add: errors_append_not_Nil)

lemma product_perform_mutation_success:
  assumes run: "product_perform_mutation e d i input = (Inr p, d')"
    and adds: "adds = (case add_channels_in input of None \<Rightarrow> [] | Some xs \<Rightarrow> xs)"
    and rs: "rs = (case remove_channels_in input of None \<Rightarrow> [] | Some xs \<Rightarrow> xs)"
  shows "product_node e i = Some p"
    and "set (map channel_id adds) \<inter> set rs = {}"
    and "distinct (map channel_id adds)"
    and "distinct rs"
    and "\<forall>a \<in> set adds. channel_node e (channel_id a) \<noteq> None"
    and "d' = product_save d p
                \<lparr>add_channels = map (\<lambda>a. (a, the (channel_node e (channel_id a)))) adds,
                 remove_channels = resolve_global_ids_to_primary_keys e rs\<rparr>"
    and "category p = None \<longrightarrow> filter is_published adds = []"
proof -
  show node: "product_node e i = Some p"
    using run
    by (auto simp: product_perform_mutation_def get_node_or_error_def Let_def
        split: option.splits sum.splits prod.splits if_splits)
  have ok: "set (map channel_id adds) \<inter> set rs = {} \<and> distinct (map channel_id adds)
      \<and> distinct rs"
  proof (rule ccontr)
    assume "\<not> ?thesis"
    from product_perform_mutation_structural[OF node _ rs this, of d] run show False
      by (simp add: adds)
  qed
  then show "set (map channel_id adds) \<inter> set rs = {}" and "distinct (map channel_id adds)"
    and "distinct rs"
    by simp_all
  show res: "\<forall>a \<in> set adds. channel_node e (channel_id a) \<noteq> None"
  proof (rule ccontr)
    assume u: "\<not> ?thesis"
    then have "adds \<noteq> []"
      by auto
    then have some: "add_channels_in input = Some adds"
      using adds by (cases "add_channels_in input") auto
    from ok product_perform_mutation_unresolved[OF node some rs _ _ _ u, of d] run show False
      by simp
  qed
  from ok product_perform_mutation_resolved[OF node adds rs _ _ _ res, of d] run
  have r: "(if category p = None \<and> filter is_published adds \<noteq> []
         then (Inl [(''is_published'',
                     [\<lparr>message = ''You must select a category to be able to publish.'',
                       code = PRODUCT_WITHOUT_CATEGORY,
                       params_channels = map channel_id (filter is_published adds)\<rparr>])], d)
         else (Inr p, product_save d p
                \<lparr>add_channels = map (\<lambda>a. (a, the (channel_node e (channel_id a)))) adds,
                 remove_channels = resolve_global_ids_to_primary_keys e rs\<rparr>)) = (Inr p, d')"
    by (simp add: Let_def)
  then show "d' = product_save d p
                \<lparr>add_channels = map (\<lambda>a. (a, the (channel_node e (channel_id a)))) adds,
                 remove_channels = resolve_global_ids_to_primary_keys e rs\<rparr>"
    by (simp split: if_splits)
  from r show "category p = None \<longrightarrow> filter is_published adds = []"
    by (auto split: if_splits)
qed

text \<open>The rows after the upserts of the add entries, and after the deletes.\<close>

lemma distinct_keys_pcl_update_or_create:
  "distinct (map (\<lambda>r. (pcl_product r, pcl_channel r)) rows) \<Longrightarrow>
   distinct (map (\<lambda>r. (pcl_product r, pcl_channel r)) (pcl_update_or_create rows p c pub dt))"
  unfolding keys_pcl_update_or_create by auto

lemma distinct_keys_add_channels_rows:
  "distinct (map (\<lambda>r. (pcl_product r, pcl_channel r)) rows) \<Longrightarrow>
   distinct (map (\<lambda>r. (pcl_product r, pcl_channel r)) (add_channels_rows rows p adds))"
  by (induction adds arbitrary: rows) (auto simp: distinct_keys_pcl_update_or_create)

lemma distinct_keys_remove_channels_rows:
  "distinct (map (\<lambda>r. (pcl_product r, pcl_channel r)) rows) \<Longrightarrow>
   distinct (map (\<lambda>r. (pcl_product r, pcl_channel r)) (remove_channels_rows rows p pks))"
  unfolding remove_channels_rows_def by (rule distinct_map_filter)

lemma set_add_channels_rows:
  "distinct (map (\<lambda>(a, c). channel_pk c) adds) \<Longrightarrow>
   set (add_channels_rows rows p adds) =
     {r \<in> set rows. \<not> (pcl_product r = product_pk p
                          \<and> pcl_channel r \<in> (\<lambda>(a, c). channel_pk c) ` set adds)}
     \<union> (\<lambda>(a, c). \<lparr>pcl_product = product_pk p, pcl_channel = channel_pk c,
                   pcl_is_published = is_published a,
                   pcl_publication_date = publication_date a\<rparr>) ` set adds"
proof (induction adds arbitrary: rows)
  case Nil
  show ?case by simp
next
  case (Cons x adds)
  obtain a c where x: "x = (a, c)"
    by (cases x)
  from Cons.prems have d: "distinct (map (\<lambda>(a, c). channel_pk c) adds)"
    and n: "channel_pk c \<notin> (\<lambda>(a, c). channel_pk c) ` set adds"
    by (simp_all add: x)
  let ?rows1 = "pcl_update_or_create rows (product_pk p) (channel_pk c)
                  (is_published a) (publication_date a)"
  have "set (add_channels_rows rows p (x # adds)) = set (add_channels_rows ?rows1 p adds)"
    by (simp add: x)
  also note Cons.IH[OF d, of ?rows1]
  finally show ?case
    using n unfolding set_pcl_update_or_create x by auto
qed

lemma set_remove_channels_rows:
  "set (remove_channels_rows rows p pks) =
     {r \<in> set rows. \<not> (pcl_product r = product_pk p \<and> pcl_channel r \<in> set pks)}"
  by (auto simp: remove_channels_rows_def)

lemma remove_pcl_update_or_create_commute:
  assumes "\<not> (q = product_pk p \<and> c \<in> set pks)"
  shows "remove_channels_rows (pcl_update_or_create rows q c pub dt) p pks =
         pcl_update_or_create (remove_channels_rows rows p pks) q c pub dt"
proof -
  let ?keep = "\<lambda>r. \<not> (pcl_product r = product_pk p \<and> pcl_channel r \<in> set pks)"
  let ?upd = "\<lambda>r. if pcl_product r = q \<and> pcl_channel r = c
                   then r\<lparr>pcl_is_published := pub, pcl_publication_date := dt\<rparr> else r"
  have ex: "(\<exists>r \<in> set (filter ?keep rows). pcl_product r = q \<and> pcl_channel r = c) \<longleftrightarrow>
        (\<exists>r \<in> set rows. pcl_product r = q \<and> pcl_channel r = c)"
    using assms by auto
  have fm: "filter ?keep (map ?upd xs) = map ?upd (filter ?keep xs)" for xs
    by (induction xs) auto
  show ?thesis
  proof (cases "\<exists>r \<in> set rows. pcl_product r = q \<and> pcl_channel r = c")
    case True
    have "remove_channels_rows (pcl_update_or_create rows q c pub dt) p pks =
        filter ?keep (map ?upd rows)"
      using True by (simp only: remove_channels_rows_def pcl_update_or_create_def if_True)
    also have "\<dots> = map ?upd (filter ?keep rows)"
      by (rule fm)
    also have "\<dots> = pcl_update_or_create (filter ?keep rows) q c pub dt"
      using True ex by (simp only: pcl_update_or_create_def if_True)
    finally show ?thesis
      by (simp only: remove_channels_rows_def)
  next
    case False
    have "remove_channels_rows (pcl_update_or_create rows q c pub dt) p pks =
        filter ?keep (rows @ [\<lparr>pcl_product = q, pcl_channel = c,
                     pcl_is_published = pub, pcl_publication_date = dt\<rparr>])"
      using False by (simp only: remove_channels_rows_def pcl_update_or_create_def if_False)
    also have "\<dots> = filter ?keep rows @ [\<lparr>pcl_product = q, pcl_channel = c,
                     pcl_is_published = pub, pcl_publication_date = dt\<rparr>]"
      using assms by auto
    also have "\<dots> = pcl_update_or_create (filter ?keep rows) q c pub dt"
      using False ex by (simp only: pcl_update_or_create_def if_False)
    finally show ?thesis
      by (simp only: remove_channels_rows_def)
  qed
qed

lemma remove_add_channels_rows_commute:
  "(\<lambda>(a, c). channel_pk c) ` set adds \<inter> set pks = {} \<Longrightarrow>
   remove_channels_rows (add_channels_rows rows p adds) p pks =
   add_channels_rows (remove_channels_rows rows p pks) p adds"
proof (induction adds arbitrary: rows)
  case Nil
  show ?case by simp
next
  case (Cons x adds)
  obtain a c where x: "x = (a, c)"
    by (cases x)
  from Cons.prems have n: "channel_pk c \<notin> set pks"
    and rest: "(\<lambda>(a, c). channel_pk c) ` set adds \<inter> set pks = {}"
    by (auto simp: x)
  show ?case
    using Cons.IH[OF rest] n
    by (simp add: x remove_pcl_update_or_create_commute[symmetric])
qed

lemma keys_add_channels_rows:
  "set (map (\<lambda>r. (pcl_product r, pcl_channel r)) (add_channels_rows rows p adds)) =
     set (map (\<lambda>r. (pcl_product r, pcl_channel r)) rows)
     \<union> (\<lambda>(a, c). (product_pk p, channel_pk c)) ` set adds"
proof (induction adds arbitrary: rows)
  case Nil
  show ?case by simp
next
  case (Cons x adds)
  obtain a c where x: "x = (a, c)"
    by (cases x)
  show ?case
    unfolding x add_channels_rows.simps Cons.IH keys_pcl_update_or_create
    by auto
qed

lemma set_resolve_global_ids_to_primary_keys:
  "set (resolve_global_ids_to_primary_keys e ids) =
     {k. \<exists>i \<in> set ids. \<exists>c. channel_node e i = Some c \<and> channel_pk c = k}"
  by (induction ids)
     (auto simp: resolve_global_ids_to_primary_keys_def List.map_filter_def
        split: option.splits)

text \<open>What a clean stage without errors has established.\<close>

lemma variant_clean_channels_ok:
  assumes "variant_clean_channels e input [] = Inr (cleaned, [])"
  shows "distinct (map vchannel_id input)"
    and "\<forall>a \<in> set input. channel_node e (vchannel_id a) \<noteq> None"
    and "cleaned = map (\<lambda>a. (a, the (channel_node e (vchannel_id a)))) input"
proof -
  show d: "distinct (map vchannel_id input)"
  proof (rule ccontr)
    assume "\<not> ?thesis"
    from variant_clean_channels_dup[OF this, of e "[]"] assms show False
      by simp
  qed
  show r: "\<forall>a \<in> set input. channel_node e (vchannel_id a) \<noteq> None"
  proof (rule ccontr)
    assume "\<not> ?thesis"
    from variant_clean_channels_unresolved[OF d this, of "[]"] assms show False
      by simp
  qed
  from variant_clean_channels_resolved[OF d r, of "[]"] assms
  show "cleaned = map (\<lambda>a. (a, the (channel_node e (vchannel_id a)))) input"
    by simp
qed

lemma product_clean_channels_ok:
  assumes clean: "product_clean_channels e input [] = Inr (cleaned, [])"
    and adds: "adds = (case add_channels_in input of None \<Rightarrow> [] | Some xs \<Rightarrow> xs)"
    and rs: "rs = (case remove_channels_in input of None \<Rightarrow> [] | Some xs \<Rightarrow> xs)"
  shows "set (map channel_id adds) \<inter> set rs = {}"
    and "distinct (map channel_id adds)"
    and "distinct rs"
    and "\<forall>a \<in> set adds. channel_node e (channel_id a) \<noteq> None"
    and "cleaned = \<lparr>add_channels = map (\<lambda>a. (a, the (channel_node e (channel_id a)))) adds,
                    remove_channels = resolve_global_ids_to_primary_keys e rs\<rparr>"
proof -
  let ?errs = "validate_duplicated_values rs ''remove_channels''
            (validate_duplicated_values (map channel_id adds) ''add_channels''
               (validate_duplicated_ids (map channel_id adds) rs []))"
  have ok: "set (map channel_id adds) \<inter> set rs = {} \<and> distinct (map channel_id adds)
      \<and> distinct rs"
  proof (rule ccontr)
    assume "\<not> ?thesis"
    then have ne: "?errs \<noteq> []"
      by (simp only: structural_checks_Nil_iff not_False_eq_True)
    have "product_clean_channels e input [] = Inr (empty_cleaned_input, ?errs)"
      by (rule product_clean_channels_structural) (simp_all add: adds rs ne[unfolded adds rs])
    with clean ne show False
      by simp
  qed
  then show "set (map channel_id adds) \<inter> set rs = {}" and "distinct (map channel_id adds)"
    and "distinct rs"
    by simp_all
  show res: "\<forall>a \<in> set adds. channel_node e (channel_id a) \<noteq> None"
  proof (rule ccontr)
    assume u: "\<not> ?thesis"
    then have "adds \<noteq> []"
      by auto
    then have some: "add_channels_in input = Some adds"
      using adds by (cases "add_channels_in input") auto
    from ok product_clean_channels_unresolved[OF _ _ _ some rs u] clean show False
      by simp
  qed
  from ok product_clean_channels_resolved[OF _ _ _ adds rs res] clean
  show "cleaned = \<lparr>add_channels = map (\<lambda>a. (a, the (channel_node e (channel_id a)))) adds,
                    remove_channels = resolve_global_ids_to_primary_keys e rs\<rparr>"
    by simp
qed

section \<open>The properties of the specification\<close>

subsection \<open>C1: the listings of a product after a successful request\<close>

text \<open>
  Claim C1 says that after a request without errors the rows are the previous rows
  minus the removed channels, together with the added channels. The duplicate checks
  compare external identifiers, the writes go by the channel keys the identifiers
  resolve to, and the deletes run after the upserts. In the shop \<open>''A''\<close> and \<open>''A2''\<close>
  both resolve to channel 1: the request that adds \<open>''A''\<close> and removes \<open>''A2''\<close> passes
  every check and leaves the product without a row for channel 1, where the claim
  expects the added row.
\<close>

theorem C1_counterexample:
  "product_perform_mutation shop empty_db ''Q''
     \<lparr>add_channels_in =
        Some [\<lparr>channel_id = ''A'', is_published = True, publication_date = None\<rparr>],
      remove_channels_in = Some [''A2'']\<rparr>
   = (Inr prod_Q, empty_db)
   \<and> resolve_global_ids_to_primary_keys shop [''A2''] = [1]
   \<and> set (product_channel_listings empty_db) \<noteq>
       {r \<in> set (product_channel_listings empty_db).
          \<not> (pcl_product r = 11 \<and> pcl_channel r \<in> set [1])}
       \<union> {\<lparr>pcl_product = 11, pcl_channel = 1, pcl_is_published = True,
            pcl_publication_date = None\<rparr>}"
  by (simp add: product_eval shop_defs Let_def)

text \<open>
  Claim C1, amended. Let the add entries of a request without errors resolve to
  pairwise different channels, none of them among the keys the remove-list resolves to
  (as is the case when different identifiers name different channels). Then the rows
  of the table after the reconcile stage are the previous rows, without those of the
  product on a removed or an added channel, together with one row per add entry that
  carries the product, the channel, the submitted \<open>is_published\<close> and the submitted
  \<open>publication_date\<close> (\<open>None\<close> when the entry has none); every add identifier of such
  a request resolves to a channel. The variant listings are
  untouched, and a table with one row per (product, channel) keeps that property: an
  add for a listed channel overwrites its row.
\<close>

theorem C1_reconcile:
  assumes run: "product_perform_mutation e d i input = (Inr p, d')"
    and adds: "adds = (case add_channels_in input of None \<Rightarrow> [] | Some xs \<Rightarrow> xs)"
    and rs: "rs = (case remove_channels_in input of None \<Rightarrow> [] | Some xs \<Rightarrow> xs)"
    and once: "distinct (map (\<lambda>a. channel_pk (the (channel_node e (channel_id a)))) adds)"
    and apart: "(\<lambda>a. channel_pk (the (channel_node e (channel_id a)))) ` set adds
                  \<inter> set (resolve_global_ids_to_primary_keys e rs) = {}"
  shows "set (product_channel_listings d') =
           {r \<in> set (product_channel_listings d).
              \<not> (pcl_product r = product_pk p
                  \<and> (pcl_channel r \<in> set (resolve_global_ids_to_primary_keys e rs)
                      \<or> pcl_channel r
                          \<in> (\<lambda>a. channel_pk (the (channel_node e (channel_id a)))) ` set adds))}
           \<union> (\<lambda>a. \<lparr>pcl_product = product_pk p,
                      pcl_channel = channel_pk (the (channel_node e (channel_id a))),
                      pcl_is_published = is_published a,
                      pcl_publication_date = publication_date a\<rparr>) ` set adds
       \<and> (\<forall>a \<in> set adds. channel_node e (channel_id a) \<noteq> None)
       \<and> variant_channel_listings d' = variant_channel_listings d
       \<and> (distinct (map (\<lambda>r. (pcl_product r, pcl_channel r)) (product_channel_listings d)) \<longrightarrow>
            distinct (map (\<lambda>r. (pcl_product r, pcl_channel r)) (product_channel_listings d')))"
proof -
  let ?ch = "\<lambda>a. the (channel_node e (channel_id a))"
  let ?pairs = "map (\<lambda>a. (a, ?ch a)) adds"
  let ?pks = "resolve_global_ids_to_primary_keys e rs"
  let ?rows = "product_channel_listings d"
  have d': "d' = product_save d p \<lparr>add_channels = ?pairs, remove_channels = ?pks\<rparr>"
    by (rule product_perform_mutation_success(6)[OF run adds rs])
  then have rows': "product_channel_listings d' =
      remove_channels_rows (add_channels_rows ?rows p ?pairs) p ?pks"
    and var: "variant_channel_listings d' = variant_channel_listings d"
    by (simp_all add: product_save_def)
  have dp: "distinct (map (\<lambda>(a, c). channel_pk c) ?pairs)"
    using once by (simp add: comp_def)
  have img: "(\<lambda>(a, c). channel_pk c) ` set ?pairs = (\<lambda>a. channel_pk (?ch a)) ` set adds"
    by (auto simp: image_iff)
  have new: "(\<lambda>(a, c). \<lparr>pcl_product = product_pk p, pcl_channel = channel_pk c,
                   pcl_is_published = is_published a,
                   pcl_publication_date = publication_date a\<rparr>) ` set ?pairs =
      (\<lambda>a. \<lparr>pcl_product = product_pk p, pcl_channel = channel_pk (?ch a),
             pcl_is_published = is_published a,
             pcl_publication_date = publication_date a\<rparr>) ` set adds"
    by (auto simp: image_iff)
  have "set (product_channel_listings d') =
      {r \<in> set (add_channels_rows ?rows p ?pairs).
         \<not> (pcl_product r = product_pk p \<and> pcl_channel r \<in> set ?pks)}"
    by (simp only: rows' set_remove_channels_rows)
  also have "\<dots> =
           {r \<in> set ?rows.
              \<not> (pcl_product r = product_pk p
                  \<and> (pcl_channel r \<in> set ?pks
                      \<or> pcl_channel r \<in> (\<lambda>a. channel_pk (?ch a)) ` set adds))}
           \<union> (\<lambda>a. \<lparr>pcl_product = product_pk p, pcl_channel = channel_pk (?ch a),
                      pcl_is_published = is_published a,
                      pcl_publication_date = publication_date a\<rparr>) ` set adds"
    unfolding set_add_channels_rows[OF dp] img new using apart by auto
  finally have rows: "set (product_channel_listings d') =
           {r \<in> set ?rows.
              \<not> (pcl_product r = product_pk p
                  \<and> (pcl_channel r \<in> set ?pks
                      \<or> pcl_channel r \<in> (\<lambda>a. channel_pk (?ch a)) ` set adds))}
           \<union> (\<lambda>a. \<lparr>pcl_product = product_pk p, pcl_channel = channel_pk (?ch a),
                      pcl_is_published = is_published a,
                      pcl_publication_date = publication_date a\<rparr>) ` set adds" .
  have inv: "distinct (map (\<lambda>r. (pcl_product r, pcl_channel r)) (product_channel_listings d'))"
    if "distinct (map (\<lambda>r. (pcl_product r, pcl_channel r)) ?rows)"
    unfolding rows'
    by (intro distinct_keys_remove_channels_rows distinct_keys_add_channels_rows that)
  have res: "\<forall>a \<in> set adds. channel_node e (channel_id a) \<noteq> None"
    by (rule product_perform_mutation_success(5)[OF run adds rs])
  from rows res var inv show ?thesis
    by blast
qed

theorem C1_reconcile_witness:
  "product_perform_mutation shop db_AB ''Q''
     \<lparr>add_channels_in =
        Some [\<lparr>channel_id = ''A'', is_published = True,
               publication_date = Some ''2024-01-01''\<rparr>,
              \<lparr>channel_id = ''C'', is_published = False, publication_date = None\<rparr>],
      remove_channels_in = Some [''B'', ''X'']\<rparr>
   = (Inr prod_Q,
      db_AB\<lparr>product_channel_listings :=
        [\<lparr>pcl_product = 11, pcl_channel = 1, pcl_is_published = True,
          pcl_publication_date = Some ''2024-01-01''\<rparr>,
         \<lparr>pcl_product = 11, pcl_channel = 3, pcl_is_published = False,
          pcl_publication_date = None\<rparr>]\<rparr>)
   \<and> set [\<lparr>pcl_product = 11, pcl_channel = 1, pcl_is_published = True,
            pcl_publication_date = Some ''2024-01-01''\<rparr>,
           \<lparr>pcl_product = 11, pcl_channel = 3, pcl_is_published = False,
            pcl_publication_date = None\<rparr>]
     = {r \<in> set (product_channel_listings db_AB).
          \<not> (pcl_product r = 11 \<and> (pcl_channel r \<in> {2} \<or> pcl_channel r \<in> {1, 3}))}
       \<union> {\<lparr>pcl_product = 11, pcl_channel = 1, pcl_is_published = True,
            pcl_publication_date = Some ''2024-01-01''\<rparr>,
           \<lparr>pcl_product = 11, pcl_channel = 3, pcl_is_published = False,
            pcl_publication_date = None\<rparr>}"
proof -
  let ?adds = "[\<lparr>channel_id = ''A'', is_published = True,
               publication_date = Some ''2024-01-01''\<rparr>,
              \<lparr>channel_id = ''C'', is_published = False, publication_date = None\<rparr>]"
  let ?input = "\<lparr>add_channels_in = Some ?adds, remove_channels_in = Some [''B'', ''X'']\<rparr>"
  let ?d' = "db_AB\<lparr>product_channel_listings :=
        [\<lparr>pcl_product = 11, pcl_channel = 1, pcl_is_published = True,
          pcl_publication_date = Some ''2024-01-01''\<rparr>,
         \<lparr>pcl_product = 11, pcl_channel = 3, pcl_is_published = False,
          pcl_publication_date = None\<rparr>]\<rparr>"
  have run: "product_perform_mutation shop db_AB ''Q'' ?input = (Inr prod_Q, ?d')"
    by (simp add: product_eval shop_defs Let_def)
  have h1: "?adds = (case add_channels_in ?input of None \<Rightarrow> [] | Some xs \<Rightarrow> xs)" by simp
  have h2: "[''B'', ''X''] = (case remove_channels_in ?input of None \<Rightarrow> [] | Some xs \<Rightarrow> xs)"
    by simp
  have pks: "resolve_global_ids_to_primary_keys shop [''B'', ''X''] = [2]"
    by (simp add: resolve_global_ids_to_primary_keys_def List.map_filter_def shop_defs)
  have h3: "distinct (map (\<lambda>a. channel_pk (the (channel_node shop (channel_id a)))) ?adds)"
    by (simp add: shop_defs)
  have h4: "(\<lambda>a. channel_pk (the (channel_node shop (channel_id a)))) ` set ?adds
                  \<inter> set (resolve_global_ids_to_primary_keys shop [''B'', ''X'']) = {}"
    unfolding pks by (simp add: shop_defs)
  from C1_reconcile[OF run h1 h2 h3 h4, THEN conjunct1]
  show ?thesis
    unfolding pks using run by (simp add: shop_defs)
qed

subsection \<open>C2: what a successful variant mutation stores\<close>

text \<open>
  Claim C2. When the variant mutation returns, every entry resolved to a channel, the
  product listings are untouched, and the variant listings are the old ones after one
  \<open>update_or_create\<close> per entry, in the order of the request, each with the entry's price
  and the currency code of the entry's channel. Right after the upsert of an entry the
  rows of (variant, channel) are exactly the row with the submitted price and the
  channel's currency, and that is still so in the final table unless a later entry of
  the request resolves to the same channel and overwrites it. The currency is a field
  of the channel; the request has no field for it. A table with one row per
  (variant, channel) keeps that property.
\<close>

theorem C2_variant_upsert:
  assumes run: "variant_perform_mutation e d i input = (Inr v, d')"
  shows "variant_channel_listings d' =
           variant_save_rows (variant_channel_listings d) v
             (map (\<lambda>a. (a, the (channel_node e (vchannel_id a)))) input)
       \<and> product_channel_listings d' = product_channel_listings d
       \<and> (\<forall>a \<in> set input. channel_node e (vchannel_id a) \<noteq> None)
       \<and> (\<forall>xs a ys c. input = xs @ a # ys \<and> channel_node e (vchannel_id a) = Some c \<longrightarrow>
             {r \<in> set (variant_save_rows (variant_channel_listings d) v
                          (map (\<lambda>a. (a, the (channel_node e (vchannel_id a)))) (xs @ [a]))).
                vcl_variant r = variant_pk v \<and> vcl_channel r = channel_pk c} =
             {\<lparr>vcl_variant = variant_pk v, vcl_channel = channel_pk c,
               price_amount = price a, currency = currency_code c\<rparr>})
       \<and> (\<forall>xs a ys c. input = xs @ a # ys \<and> channel_node e (vchannel_id a) = Some c
             \<and> (\<forall>b \<in> set ys. channel_pk (the (channel_node e (vchannel_id b))) \<noteq> channel_pk c)
           \<longrightarrow>
             {r \<in> set (variant_channel_listings d').
                vcl_variant r = variant_pk v \<and> vcl_channel r = channel_pk c} =
             {\<lparr>vcl_variant = variant_pk v, vcl_channel = channel_pk c,
               price_amount = price a, currency = currency_code c\<rparr>})
       \<and> (distinct (map (\<lambda>r. (vcl_variant r, vcl_channel r)) (variant_channel_listings d)) \<longrightarrow>
            distinct (map (\<lambda>r. (vcl_variant r, vcl_channel r)) (variant_channel_listings d')))"
proof -
  let ?pair = "\<lambda>a. (a, the (channel_node e (vchannel_id a)))"
  let ?rows = "variant_channel_listings d"
  have d': "d' = variant_save d v (map ?pair input)"
    by (rule variant_perform_mutation_success(4)[OF run])
  have res: "\<forall>a \<in> set input. channel_node e (vchannel_id a) \<noteq> None"
    by (rule variant_perform_mutation_success(3)[OF run])
  have rows': "variant_channel_listings d' = variant_save_rows ?rows v (map ?pair input)"
    by (simp add: d' variant_save_def)
  have prod: "product_channel_listings d' = product_channel_listings d"
    by (simp add: d' variant_save_def)
  have step: "{r \<in> set (variant_save_rows ?rows v (map ?pair (xs @ [a]))).
                vcl_variant r = variant_pk v \<and> vcl_channel r = channel_pk c} =
             {\<lparr>vcl_variant = variant_pk v, vcl_channel = channel_pk c,
               price_amount = price a, currency = currency_code c\<rparr>}"
    if "channel_node e (vchannel_id a) = Some c" for xs a c
    using variant_save_rows_last[of "[]" c ?rows v "map ?pair xs" a] that
    by simp
  have final: "{r \<in> set (variant_channel_listings d').
                vcl_variant r = variant_pk v \<and> vcl_channel r = channel_pk c} =
             {\<lparr>vcl_variant = variant_pk v, vcl_channel = channel_pk c,
               price_amount = price a, currency = currency_code c\<rparr>}"
    if "input = xs @ a # ys" and "channel_node e (vchannel_id a) = Some c"
      and "\<forall>b \<in> set ys. channel_pk (the (channel_node e (vchannel_id b))) \<noteq> channel_pk c"
    for xs a ys c
  proof -
    have "\<forall>(a', c') \<in> set (map ?pair ys). channel_pk c' \<noteq> channel_pk c"
      using that(3) by auto
    from variant_save_rows_last[OF this, of ?rows v "map ?pair xs" a] that(1,2)
    show ?thesis
      by (simp add: rows')
  qed
  have inv: "distinct (map (\<lambda>r. (vcl_variant r, vcl_channel r)) (variant_channel_listings d'))"
    if "distinct (map (\<lambda>r. (vcl_variant r, vcl_channel r)) ?rows)"
    unfolding rows' using that by (rule distinct_keys_variant_save_rows)
  show ?thesis
    using rows' prod res step final inv by blast
qed

theorem C2_variant_upsert_witness:
  "variant_perform_mutation shop db_AB ''V''
        [\<lparr>vchannel_id = ''A'', price = Some 10\<rparr>, \<lparr>vchannel_id = ''B'', price = Some 20\<rparr>]
     = (Inr var_V,
        db_AB\<lparr>variant_channel_listings :=
          [\<lparr>vcl_variant = 100, vcl_channel = 1, price_amount = Some 10, currency = ''USD''\<rparr>,
           \<lparr>vcl_variant = 100, vcl_channel = 2, price_amount = Some 20, currency = ''EUR''\<rparr>]\<rparr>)
   \<and> {r \<in> set [\<lparr>vcl_variant = 100, vcl_channel = 1, price_amount = Some 10, currency = ''USD''\<rparr>,
                \<lparr>vcl_variant = 100, vcl_channel = 2, price_amount = Some 20, currency = ''EUR''\<rparr>].
         vcl_variant r = 100 \<and> vcl_channel r = 1}
       = {\<lparr>vcl_variant = 100, vcl_channel = 1, price_amount = Some 10, currency = ''USD''\<rparr>}"
proof -
  let ?a = "\<lparr>vchannel_id = ''A'', price = Some 10\<rparr>"
  let ?b = "\<lparr>vchannel_id = ''B'', price = Some 20\<rparr>"
  let ?d' = "db_AB\<lparr>variant_channel_listings :=
          [\<lparr>vcl_variant = 100, vcl_channel = 1, price_amount = Some 10, currency = ''USD''\<rparr>,
           \<lparr>vcl_variant = 100, vcl_channel = 2, price_amount = Some 20, currency = ''EUR''\<rparr>]\<rparr>"
  have run: "variant_perform_mutation shop db_AB ''V'' [?a, ?b] = (Inr var_V, ?d')"
    by (simp add: variant_eval shop_defs)
  have h: "[?a, ?b] = [] @ ?a # [?b] \<and> channel_node shop (vchannel_id ?a) = Some chan_A
      \<and> (\<forall>b \<in> set [?b]. channel_pk (the (channel_node shop (vchannel_id b))) \<noteq> channel_pk chan_A)"
    by (simp add: shop_defs)
  from C2_variant_upsert[OF run, THEN conjunct2, THEN conjunct2, THEN conjunct2,
      THEN conjunct2, THEN conjunct1, rule_format, OF h]
  show ?thesis
    using run by (simp add: shop_defs)
qed

subsection \<open>C3: the errors of the variant mutation\<close>

text \<open>
  Claim C3. The two checks of the validate stage each add at most one error to the
  mapping: \<open>PRODUCT_NOT_ASSIGNED_TO_CHANNEL\<close> under \<open>input\<close>, naming every cleaned entry
  whose channel has no \<open>ProductChannelListing\<close> row of the parent product, and \<open>INVALID\<close>
  under \<open>price\<close>, naming every cleaned entry whose price is below zero. When the clean
  stage reports no error, the mutation saves the entries if both lists are empty, and
  otherwise raises exactly those errors. The two lists are filtered independently, so
  an entry in both is named by both errors. Whatever the request, a raised error
  leaves the database as it was: no entry is written.
\<close>

theorem C3_variant_errors:
  "(\<forall>errs d'. variant_perform_mutation e d i input = (Inl errs, d') \<longrightarrow> d' = d)
   \<and> validate_product_assigned_to_channel d v cleaned errs0 =
       (if filter (\<lambda>(a, c). \<not> (\<exists>r \<in> set (product_channel_listings d).
                     pcl_product r = product_id v \<and> pcl_channel r = channel_pk c)) cleaned \<noteq> []
        then errors_append errs0 ''input''
               \<lparr>message = ''Product not available in channels.'',
                code = PRODUCT_NOT_ASSIGNED_TO_CHANNEL,
                params_channels =
                  map (\<lambda>(a, c). vchannel_id a)
                    (filter (\<lambda>(a, c). \<not> (\<exists>r \<in> set (product_channel_listings d).
                        pcl_product r = product_id v \<and> pcl_channel r = channel_pk c)) cleaned)\<rparr>
        else errs0)
   \<and> clean_prices cleaned errs0 =
       (cleaned,
        if filter (\<lambda>(a, c). \<exists>p. price a = Some p \<and> p < 0) cleaned \<noteq> []
        then errors_append errs0 ''price''
               \<lparr>message = ''Product price cannot be lower than 0.'', code = INVALID,
                params_channels =
                  map (\<lambda>(a, c). vchannel_id a)
                    (filter (\<lambda>(a, c). \<exists>p. price a = Some p \<and> p < 0) cleaned)\<rparr>
        else errs0)
   \<and> (variant_node e i = Some v \<and> variant_clean_channels e input [] = Inr (cleaned, [])
      \<longrightarrow>
        (let missing = filter (\<lambda>(a, c). \<not> (\<exists>r \<in> set (product_channel_listings d).
                                  pcl_product r = product_id v \<and> pcl_channel r = channel_pk c))
                         cleaned;
             negative = filter (\<lambda>(a, c). \<exists>p. price a = Some p \<and> p < 0) cleaned
         in variant_perform_mutation e d i input =
              (if missing = [] \<and> negative = []
               then (Inr v, variant_save d v cleaned)
               else (Inl ((if missing \<noteq> []
                           then [(''input'',
                                  [\<lparr>message = ''Product not available in channels.'',
                                    code = PRODUCT_NOT_ASSIGNED_TO_CHANNEL,
                                    params_channels = map (\<lambda>(a, c). vchannel_id a) missing\<rparr>])]
                           else [])
                          @ (if negative \<noteq> []
                             then [(''price'',
                                    [\<lparr>message = ''Product price cannot be lower than 0.'',
                                      code = INVALID,
                                      params_channels = map (\<lambda>(a, c). vchannel_id a) negative\<rparr>])]
                             else [])),
                     d))))"
proof (intro conjI allI impI)
  fix errs d'
  assume "variant_perform_mutation e d i input = (Inl errs, d')"
  then show "d' = d"
    by (rule variant_perform_mutation_no_write)
next
  show "validate_product_assigned_to_channel d v cleaned errs0 =
       (if filter (\<lambda>(a, c). \<not> (\<exists>r \<in> set (product_channel_listings d).
                     pcl_product r = product_id v \<and> pcl_channel r = channel_pk c)) cleaned \<noteq> []
        then errors_append errs0 ''input''
               \<lparr>message = ''Product not available in channels.'',
                code = PRODUCT_NOT_ASSIGNED_TO_CHANNEL,
                params_channels =
                  map (\<lambda>(a, c). vchannel_id a)
                    (filter (\<lambda>(a, c). \<not> (\<exists>r \<in> set (product_channel_listings d).
                        pcl_product r = product_id v \<and> pcl_channel r = channel_pk c)) cleaned)\<rparr>
        else errs0)"
    by (simp only: validate_product_assigned_to_channel_eq Let_def)
next
  show "clean_prices cleaned errs0 =
       (cleaned,
        if filter (\<lambda>(a, c). \<exists>p. price a = Some p \<and> p < 0) cleaned \<noteq> []
        then errors_append errs0 ''price''
               \<lparr>message = ''Product price cannot be lower than 0.'', code = INVALID,
                params_channels =
                  map (\<lambda>(a, c). vchannel_id a)
                    (filter (\<lambda>(a, c). \<exists>p. price a = Some p \<and> p < 0) cleaned)\<rparr>
        else errs0)"
    by (simp only: clean_prices_eq Let_def)
next
  assume h: "variant_node e i = Some v \<and> variant_clean_channels e input [] = Inr (cleaned, [])"
  then have node: "variant_node e i = Some v"
    and clean: "variant_clean_channels e input [] = Inr (cleaned, [])"
    by simp_all
  note ok = variant_clean_channels_ok[OF clean]
  show "(let missing = filter (\<lambda>(a, c). \<not> (\<exists>r \<in> set (product_channel_listings d).
                                  pcl_product r = product_id v \<and> pcl_channel r = channel_pk c))
                         cleaned;
             negative = filter (\<lambda>(a, c). \<exists>p. price a = Some p \<and> p < 0) cleaned
         in variant_perform_mutation e d i input =
              (if missing = [] \<and> negative = []
               then (Inr v, variant_save d v cleaned)
               else (Inl ((if missing \<noteq> []
                           then [(''input'',
                                  [\<lparr>message = ''Product not available in channels.'',
                                    code = PRODUCT_NOT_ASSIGNED_TO_CHANNEL,
                                    params_channels = map (\<lambda>(a, c). vchannel_id a) missing\<rparr>])]
                           else [])
                          @ (if negative \<noteq> []
                             then [(''price'',
                                    [\<lparr>message = ''Product price cannot be lower than 0.'',
                                      code = INVALID,
                                      params_channels = map (\<lambda>(a, c). vchannel_id a) negative\<rparr>])]
                             else [])),
                     d)))"
    using variant_perform_mutation_resolved[OF node ok(1,2), of d]
    unfolding ok(3) by (simp only: Let_def)
qed

theorem C3_variant_errors_witness:
  "variant_perform_mutation shop db_AB ''V''
        [\<lparr>vchannel_id = ''A'', price = Some 10\<rparr>,
         \<lparr>vchannel_id = ''C'', price = Some (- 5)\<rparr>,
         \<lparr>vchannel_id = ''B'', price = Some (- 1)\<rparr>]
      = (Inl [(''input'',
               [\<lparr>message = ''Product not available in channels.'',
                 code = PRODUCT_NOT_ASSIGNED_TO_CHANNEL, params_channels = [''C'']\<rparr>]),
              (''price'',
               [\<lparr>message = ''Product price cannot be lower than 0.'',
                 code = INVALID, params_channels = [''C'', ''B'']\<rparr>])], db_AB)"
proof -
  let ?input = "[\<lparr>vchannel_id = ''A'', price = Some 10\<rparr>,
         \<lparr>vchannel_id = ''C'', price = Some (- 5)\<rparr>,
         \<lparr>vchannel_id = ''B'', price = Some (- 1)\<rparr>]"
  let ?cleaned = "[(\<lparr>vchannel_id = ''A'', price = Some 10\<rparr>, chan_A),
         (\<lparr>vchannel_id = ''C'', price = Some (- 5)\<rparr>, chan_C),
         (\<lparr>vchannel_id = ''B'', price = Some (- 1)\<rparr>, chan_B)]"
  have h: "variant_node shop ''V'' = Some var_V
        \<and> variant_clean_channels shop ?input [] = Inr (?cleaned, [])"
    by (simp add: shop_def variant_clean_channels_def get_nodes_or_error_def
        get_duplicated_values_def)
  from C3_variant_errors[of shop db_AB "''V''" ?input var_V ?cleaned,
      THEN conjunct2, THEN conjunct2, THEN conjunct2, THEN mp, OF h]
  show ?thesis
    by (simp add: shop_defs)
qed

subsection \<open>C4: publishing a product that has no category\<close>

text \<open>
  Claim C4. The validate stage adds to the errors exactly one
  \<open>PRODUCT_WITHOUT_CATEGORY\<close> failure, under \<open>is_published\<close>, when some add entry of the
  cleaned input has its publish flag set, and its parameters are the identifiers of all
  such entries in the order of the request. For a product without category: when the
  clean stage reports no error and hands such an entry to the validate stage, the
  mutation raises that single failure and writes nothing; and whatever the clean stage
  does, a request with a published add entry raises and leaves the database as it was.
\<close>

theorem C4_publish_without_category:
  assumes node: "product_node e i = Some p"
    and nocat: "category p = None"
  shows "(\<forall>cleaned errs. validate_product_without_category cleaned errs =
            (if \<exists>(a, c) \<in> set (add_channels cleaned). is_published a
             then errors_append errs ''is_published''
                    \<lparr>message = ''You must select a category to be able to publish.'',
                     code = PRODUCT_WITHOUT_CATEGORY,
                     params_channels =
                       map (\<lambda>(a, c). channel_id a)
                         (filter (\<lambda>(a, c). is_published a) (add_channels cleaned))\<rparr>
             else errs))
       \<and> (\<forall>cleaned. product_clean_channels e input [] = Inr (cleaned, [])
              \<and> (\<exists>(a, c) \<in> set (add_channels cleaned). is_published a)
            \<longrightarrow> product_perform_mutation e d i input =
                  (Inl [(''is_published'',
                         [\<lparr>message = ''You must select a category to be able to publish.'',
                           code = PRODUCT_WITHOUT_CATEGORY,
                           params_channels =
                             map (\<lambda>(a, c). channel_id a)
                               (filter (\<lambda>(a, c). is_published a) (add_channels cleaned))\<rparr>])],
                   d))
       \<and> ((\<exists>a \<in> set (case add_channels_in input of None \<Rightarrow> [] | Some xs \<Rightarrow> xs).
               is_published a)
            \<longrightarrow> (\<exists>errs. product_perform_mutation e d i input = (Inl errs, d)))"
proof (intro conjI allI impI)
  fix cleaned errs
  show "validate_product_without_category cleaned errs =
            (if \<exists>(a, c) \<in> set (add_channels cleaned). is_published a
             then errors_append errs ''is_published''
                    \<lparr>message = ''You must select a category to be able to publish.'',
                     code = PRODUCT_WITHOUT_CATEGORY,
                     params_channels =
                       map (\<lambda>(a, c). channel_id a)
                         (filter (\<lambda>(a, c). is_published a) (add_channels cleaned))\<rparr>
             else errs)"
    unfolding validate_product_without_category_eq
    by (auto simp: filter_empty_conv)
next
  fix cleaned
  assume h: "product_clean_channels e input [] = Inr (cleaned, [])
              \<and> (\<exists>(a, c) \<in> set (add_channels cleaned). is_published a)"
  then have pubs: "filter (\<lambda>(a, c). is_published a) (add_channels cleaned) \<noteq> []"
    by (auto simp: filter_empty_conv)
  from h node nocat pubs
  show "product_perform_mutation e d i input =
                  (Inl [(''is_published'',
                         [\<lparr>message = ''You must select a category to be able to publish.'',
                           code = PRODUCT_WITHOUT_CATEGORY,
                           params_channels =
                             map (\<lambda>(a, c). channel_id a)
                               (filter (\<lambda>(a, c). is_published a) (add_channels cleaned))\<rparr>])],
                   d)"
    by (simp add: product_perform_mutation_def get_node_or_error_def
        validate_product_without_category_eq)
next
  let ?adds = "case add_channels_in input of None \<Rightarrow> [] | Some xs \<Rightarrow> xs"
  let ?rs = "case remove_channels_in input of None \<Rightarrow> [] | Some xs \<Rightarrow> xs"
  let ?ok = "set (map channel_id ?adds) \<inter> set ?rs = {} \<and> distinct (map channel_id ?adds)
      \<and> distinct ?rs"
  assume pub: "\<exists>a \<in> set ?adds. is_published a"
  then have pubs: "filter is_published ?adds \<noteq> []"
    by (auto simp: filter_empty_conv)
  show "\<exists>errs. product_perform_mutation e d i input = (Inl errs, d)"
  proof (cases ?ok)
    case False
    from product_perform_mutation_structural[OF node refl refl False, of d]
    show ?thesis ..
  next
    case ok: True
    show ?thesis
    proof (cases "\<forall>a \<in> set ?adds. channel_node e (channel_id a) \<noteq> None")
      case True
      from ok product_perform_mutation_resolved[OF node refl refl _ _ _ True, of d] nocat pubs
      show ?thesis
        by (simp add: Let_def)
    next
      case False
      from pubs have "?adds \<noteq> []"
        by (metis filter.simps(1))
      then have some: "add_channels_in input = Some ?adds"
        by (cases "add_channels_in input") auto
      from ok product_perform_mutation_unresolved[OF node some refl _ _ _ False, of d]
      show ?thesis
        by blast
    qed
  qed
qed

theorem C4_publish_without_category_witness:
  "product_perform_mutation shop empty_db ''P''
     \<lparr>add_channels_in =
        Some [\<lparr>channel_id = ''A'', is_published = True, publication_date = None\<rparr>,
              \<lparr>channel_id = ''B'', is_published = False, publication_date = None\<rparr>,
              \<lparr>channel_id = ''C'', is_published = True, publication_date = Some ''2024-01-01''\<rparr>],
      remove_channels_in = None\<rparr>
   = (Inl [(''is_published'',
            [\<lparr>message = ''You must select a category to be able to publish.'',
              code = PRODUCT_WITHOUT_CATEGORY, params_channels = [''A'', ''C'']\<rparr>])], empty_db)"
proof -
  let ?a = "\<lparr>channel_id = ''A'', is_published = True, publication_date = None\<rparr>"
  let ?b = "\<lparr>channel_id = ''B'', is_published = False, publication_date = None\<rparr>"
  let ?c = "\<lparr>channel_id = ''C'', is_published = True, publication_date = Some ''2024-01-01''\<rparr>"
  let ?input = "\<lparr>add_channels_in = Some [?a, ?b, ?c], remove_channels_in = None\<rparr>"
  let ?cleaned = "\<lparr>add_channels = [(?a, chan_A), (?b, chan_B), (?c, chan_C)],
                   remove_channels = []\<rparr>"
  have h1: "product_node shop ''P'' = Some prod_P" by (simp add: shop_def)
  have h2: "category prod_P = None" by (simp add: prod_P_def)
  have h3: "product_clean_channels shop ?input [] = Inr (?cleaned, [])
              \<and> (\<exists>(a, c) \<in> set (add_channels ?cleaned). is_published a)"
    by (simp add: product_eval shop_def Let_def)
  from C4_publish_without_category[OF h1 h2, of ?input empty_db,
      THEN conjunct2, THEN conjunct1, rule_format, OF h3]
  show ?thesis by simp
qed

subsection \<open>C5: which failures are reported together\<close>

text \<open>
  Claim C5 says that all validation failures of a request, the add-path "channel not
  found" failures among them, are gathered in one mapping and never raised one by one.
  Product \<open>''P''\<close> has no category. Publishing it on channel A is a category failure,
  as the second request shows; in the first request, which also adds the unknown
  channel X, the response holds the \<open>NOT_FOUND\<close> failure alone. Likewise for the
  variant: channel C is not listed and its price is negative, but with the unknown
  channel X in the request only \<open>NOT_FOUND\<close> is reported.
\<close>

theorem C5_counterexample:
  "product_perform_mutation shop empty_db ''P''
     \<lparr>add_channels_in =
        Some [\<lparr>channel_id = ''A'', is_published = True, publication_date = None\<rparr>,
              \<lparr>channel_id = ''X'', is_published = False, publication_date = None\<rparr>],
      remove_channels_in = None\<rparr>
   = (Inl [(''channel_id'',
            [\<lparr>message = ''Could not resolve to a node.'', code = NOT_FOUND,
              params_channels = [''X'']\<rparr>])], empty_db)
   \<and> product_perform_mutation shop empty_db ''P''
     \<lparr>add_channels_in =
        Some [\<lparr>channel_id = ''A'', is_published = True, publication_date = None\<rparr>],
      remove_channels_in = None\<rparr>
   = (Inl [(''is_published'',
            [\<lparr>message = ''You must select a category to be able to publish.'',
              code = PRODUCT_WITHOUT_CATEGORY, params_channels = [''A'']\<rparr>])], empty_db)
   \<and> variant_perform_mutation shop db_AB ''V''
        [\<lparr>vchannel_id = ''C'', price = Some (- 1)\<rparr>, \<lparr>vchannel_id = ''X'', price = Some 5\<rparr>]
   = (Inl [(''channel_id'',
            [\<lparr>message = ''Could not resolve to a node.'', code = NOT_FOUND,
              params_channels = [''X'']\<rparr>])], db_AB)"
  by (simp add: product_eval variant_eval shop_defs Let_def)

text \<open>
  Claim C5, amended. The failures of one stage are gathered in one mapping and raised
  together, and nothing is written; the stages do not add up.
  \<^item> A structural duplicate: the response holds the errors of the structural checks
    and nothing else, whatever the identifiers resolve to.
  \<^item> No structural duplicate, and an add identifier that does not resolve: the
    mutation raises at once, and the response is the \<open>NOT_FOUND\<close> failure alone; the
    category, assignment and price checks are not reached.
  \<^item> Otherwise the response holds what the validate stage found: the category failure
    for a product, the assignment and price failures together for a variant.
\<close>

theorem C5_error_accumulation:
  assumes pnode: "product_node e i = Some p"
    and vnode: "variant_node e j = Some v"
    and adds: "adds = (case add_channels_in input of None \<Rightarrow> [] | Some xs \<Rightarrow> xs)"
    and rs: "rs = (case remove_channels_in input of None \<Rightarrow> [] | Some xs \<Rightarrow> xs)"
  shows
    "(\<not> (set (map channel_id adds) \<inter> set rs = {} \<and> distinct (map channel_id adds) \<and> distinct rs)
        \<longrightarrow> (\<forall>e'. product_node e' i = Some p \<longrightarrow>
               product_perform_mutation e' d i input =
                 (Inl (validate_duplicated_values rs ''remove_channels''
                        (validate_duplicated_values (map channel_id adds) ''add_channels''
                           (validate_duplicated_ids (map channel_id adds) rs []))), d)))
   \<and> (set (map channel_id adds) \<inter> set rs = {} \<and> distinct (map channel_id adds) \<and> distinct rs
        \<and> \<not> (\<forall>a \<in> set adds. channel_node e (channel_id a) \<noteq> None)
        \<longrightarrow> product_perform_mutation e d i input =
              (Inl [(''channel_id'',
                     [\<lparr>message = ''Could not resolve to a node.'', code = NOT_FOUND,
                       params_channels =
                         filter (\<lambda>i. channel_node e i = None) (map channel_id adds)\<rparr>])], d))
   \<and> (set (map channel_id adds) \<inter> set rs = {} \<and> distinct (map channel_id adds) \<and> distinct rs
        \<and> (\<forall>a \<in> set adds. channel_node e (channel_id a) \<noteq> None)
        \<longrightarrow> product_perform_mutation e d i input =
              (if category p = None \<and> filter is_published adds \<noteq> []
               then (Inl [(''is_published'',
                           [\<lparr>message = ''You must select a category to be able to publish.'',
                             code = PRODUCT_WITHOUT_CATEGORY,
                             params_channels = map channel_id (filter is_published adds)\<rparr>])], d)
               else (Inr p,
                     product_save d p
                       \<lparr>add_channels = map (\<lambda>a. (a, the (channel_node e (channel_id a)))) adds,
                        remove_channels = resolve_global_ids_to_primary_keys e rs\<rparr>)))
   \<and> (\<not> distinct (map vchannel_id vinput)
        \<longrightarrow> (\<forall>e'. variant_node e' j = Some v \<longrightarrow>
               variant_perform_mutation e' d j vinput =
                 (Inl [(''channelId'',
                        [\<lparr>message = ''Duplicated channel ID.'', code = DUPLICATED_INPUT_ITEM,
                          params_channels = get_duplicated_values (map vchannel_id vinput)\<rparr>])],
                  d)))
   \<and> (distinct (map vchannel_id vinput)
        \<and> \<not> (\<forall>a \<in> set vinput. channel_node e (vchannel_id a) \<noteq> None)
        \<longrightarrow> variant_perform_mutation e d j vinput =
              (Inl [(''channel_id'',
                     [\<lparr>message = ''Could not resolve to a node.'', code = NOT_FOUND,
                       params_channels =
                         filter (\<lambda>i. channel_node e i = None) (map vchannel_id vinput)\<rparr>])], d))
   \<and> (distinct (map vchannel_id vinput)
        \<and> (\<forall>a \<in> set vinput. channel_node e (vchannel_id a) \<noteq> None)
        \<longrightarrow> variant_perform_mutation e d j vinput =
             (let cleaned = map (\<lambda>a. (a, the (channel_node e (vchannel_id a)))) vinput;
                  missing = filter (\<lambda>(a, c). \<not> (\<exists>r \<in> set (product_channel_listings d).
                               pcl_product r = product_id v \<and> pcl_channel r = channel_pk c))
                              cleaned;
                  negative = filter (\<lambda>(a, c). \<exists>p. price a = Some p \<and> p < 0) cleaned
              in if missing = [] \<and> negative = []
                 then (Inr v, variant_save d v cleaned)
                 else (Inl ((if missing \<noteq> []
                             then [(''input'',
                                    [\<lparr>message = ''Product not available in channels.'',
                                      code = PRODUCT_NOT_ASSIGNED_TO_CHANNEL,
                                      params_channels = map (\<lambda>(a, c). vchannel_id a) missing\<rparr>])]
                             else [])
                            @ (if negative \<noteq> []
                               then [(''price'',
                                      [\<lparr>message = ''Product price cannot be lower than 0.'',
                                        code = INVALID,
                                        params_channels =
                                          map (\<lambda>(a, c). vchannel_id a) negative\<rparr>])]
                               else [])),
                       d)))"
proof (intro conjI impI allI)
  fix e' :: env
  assume "\<not> (set (map channel_id adds) \<inter> set rs = {} \<and> distinct (map channel_id adds)
             \<and> distinct rs)"
    and "product_node e' i = Some p"
  then show "product_perform_mutation e' d i input =
                 (Inl (validate_duplicated_values rs ''remove_channels''
                        (validate_duplicated_values (map channel_id adds) ''add_channels''
                           (validate_duplicated_ids (map channel_id adds) rs []))), d)"
    using product_perform_mutation_structural[of e' i p "map channel_id adds" input rs d]
    by (simp add: adds rs)
next
  assume h: "set (map channel_id adds) \<inter> set rs = {} \<and> distinct (map channel_id adds)
      \<and> distinct rs \<and> \<not> (\<forall>a \<in> set adds. channel_node e (channel_id a) \<noteq> None)"
  then have "adds \<noteq> []"
    by auto
  then have some: "add_channels_in input = Some adds"
    using adds by (cases "add_channels_in input") auto
  from h product_perform_mutation_unresolved[OF pnode some rs, of d]
  show "product_perform_mutation e d i input =
              (Inl [(''channel_id'',
                     [\<lparr>message = ''Could not resolve to a node.'', code = NOT_FOUND,
                       params_channels =
                         filter (\<lambda>i. channel_node e i = None) (map channel_id adds)\<rparr>])], d)"
    by blast
next
  assume h: "set (map channel_id adds) \<inter> set rs = {} \<and> distinct (map channel_id adds)
      \<and> distinct rs \<and> (\<forall>a \<in> set adds. channel_node e (channel_id a) \<noteq> None)"
  from h product_perform_mutation_resolved[OF pnode adds rs, of d]
  show "product_perform_mutation e d i input =
              (if category p = None \<and> filter is_published adds \<noteq> []
               then (Inl [(''is_published'',
                           [\<lparr>message = ''You must select a category to be able to publish.'',
                             code = PRODUCT_WITHOUT_CATEGORY,
                             params_channels = map channel_id (filter is_published adds)\<rparr>])], d)
               else (Inr p,
                     product_save d p
                       \<lparr>add_channels = map (\<lambda>a. (a, the (channel_node e (channel_id a)))) adds,
                        remove_channels = resolve_global_ids_to_primary_keys e rs\<rparr>))"
    by (simp add: Let_def)
next
  fix e' :: env
  assume "\<not> distinct (map vchannel_id vinput)" and "variant_node e' j = Some v"
  then show "variant_perform_mutation e' d j vinput =
                 (Inl [(''channelId'',
                        [\<lparr>message = ''Duplicated channel ID.'', code = DUPLICATED_INPUT_ITEM,
                          params_channels = get_duplicated_values (map vchannel_id vinput)\<rparr>])],
                  d)"
    by (simp add: variant_perform_mutation_dup)
next
  assume "distinct (map vchannel_id vinput)
        \<and> \<not> (\<forall>a \<in> set vinput. channel_node e (vchannel_id a) \<noteq> None)"
  then show "variant_perform_mutation e d j vinput =
              (Inl [(''channel_id'',
                     [\<lparr>message = ''Could not resolve to a node.'', code = NOT_FOUND,
                       params_channels =
                         filter (\<lambda>i. channel_node e i = None) (map vchannel_id vinput)\<rparr>])], d)"
    using variant_perform_mutation_unresolved[OF vnode, of vinput d] by blast
next
  assume "distinct (map vchannel_id vinput)
        \<and> (\<forall>a \<in> set vinput. channel_node e (vchannel_id a) \<noteq> None)"
  then show "variant_perform_mutation e d j vinput =
             (let cleaned = map (\<lambda>a. (a, the (channel_node e (vchannel_id a)))) vinput;
                  missing = filter (\<lambda>(a, c). \<not> (\<exists>r \<in> set (product_channel_listings d).
                               pcl_product r = product_id v \<and> pcl_channel r = channel_pk c))
                              cleaned;
                  negative = filter (\<lambda>(a, c). \<exists>p. price a = Some p \<and> p < 0) cleaned
              in if missing = [] \<and> negative = []
                 then (Inr v, variant_save d v cleaned)
                 else (Inl ((if missing \<noteq> []
                             then [(''input'',
                                    [\<lparr>message = ''Product not available in channels.'',
                                      code = PRODUCT_NOT_ASSIGNED_TO_CHANNEL,
                                      params_channels = map (\<lambda>(a, c). vchannel_id a) missing\<rparr>])]
                             else [])
                            @ (if negative \<noteq> []
                               then [(''price'',
                                      [\<lparr>message = ''Product price cannot be lower than 0.'',
                                        code = INVALID,
                                        params_channels =
                                          map (\<lambda>(a, c). vchannel_id a) negative\<rparr>])]
                               else [])),
                       d))"
    using variant_perform_mutation_resolved[OF vnode, of vinput d] by blast
qed


theorem C5_error_accumulation_witness:
  "product_perform_mutation shop db_AB ''P''
     \<lparr>add_channels_in =
        Some [\<lparr>channel_id = ''C'', is_published = True, publication_date = None\<rparr>,
              \<lparr>channel_id = ''X'', is_published = True, publication_date = None\<rparr>,
              \<lparr>channel_id = ''Y'', is_published = False, publication_date = None\<rparr>],
      remove_channels_in = Some [''B'']\<rparr>
   = (Inl [(''channel_id'',
            [\<lparr>message = ''Could not resolve to a node.'', code = NOT_FOUND,
              params_channels = [''X'', ''Y'']\<rparr>])], db_AB)"
proof -
  let ?adds = "[\<lparr>channel_id = ''C'', is_published = True, publication_date = None\<rparr>,
              \<lparr>channel_id = ''X'', is_published = True, publication_date = None\<rparr>,
              \<lparr>channel_id = ''Y'', is_published = False, publication_date = None\<rparr>]"
  let ?input = "\<lparr>add_channels_in = Some ?adds, remove_channels_in = Some [''B'']\<rparr>"
  have h1: "product_node shop ''P'' = Some prod_P" by (simp add: shop_def)
  have h2: "variant_node shop ''V'' = Some var_V" by (simp add: shop_def)
  have h3: "?adds = (case add_channels_in ?input of None \<Rightarrow> [] | Some xs \<Rightarrow> xs)" by simp
  have h4: "[''B''] = (case remove_channels_in ?input of None \<Rightarrow> [] | Some xs \<Rightarrow> xs)" by simp
  have h5: "set (map channel_id ?adds) \<inter> set [''B''] = {} \<and> distinct (map channel_id ?adds)
      \<and> distinct [''B'']
      \<and> \<not> (\<forall>a \<in> set ?adds. channel_node shop (channel_id a) \<noteq> None)"
    by (simp add: shop_def)
  from C5_error_accumulation[OF h1 h2 h3 h4, of db_AB "[]",
      THEN conjunct2, THEN conjunct1, THEN mp, OF h5]
  show ?thesis
    by (simp add: shop_def)
qed

subsection \<open>C6: an identifier in both the add-list and the remove-list\<close>

text \<open>
  Claim C6 says that a request naming one identifier in both lists gets exactly one
  \<open>DUPLICATED_INPUT_ITEM\<close> error. The three structural checks each add their own error:
  with the add-list \<open>[A, A]\<close> and the remove-list \<open>[A]\<close> the response holds two errors
  of that code, one under \<open>input\<close> and one under \<open>add_channels\<close>.
\<close>

theorem C6_counterexample:
  "product_perform_mutation shop empty_db ''Q''
     \<lparr>add_channels_in =
        Some [\<lparr>channel_id = ''A'', is_published = False, publication_date = None\<rparr>,
              \<lparr>channel_id = ''A'', is_published = False, publication_date = None\<rparr>],
      remove_channels_in = Some [''A'']\<rparr>
   = (Inl [(''input'',
            [\<lparr>message = ''The same object cannot be in both lists for adding and removing items.'',
              code = DUPLICATED_INPUT_ITEM, params_channels = [''A'']\<rparr>]),
           (''add_channels'',
            [\<lparr>message = ''Duplicated channel ID.'', code = DUPLICATED_INPUT_ITEM,
              params_channels = [''A'']\<rparr>])], empty_db)"
  by (simp add: product_eval shop_defs Let_def)

text \<open>
  Claim C6, amended. When an identifier is in both lists the mutation raises and writes
  nothing; the field \<open>input\<close> of the response holds exactly one error, a
  \<open>DUPLICATED_INPUT_ITEM\<close> whose parameters are exactly the identifiers that are in both
  lists; every error of the response has that code; and when neither list repeats an
  identifier that error is the whole response.
\<close>

theorem C6_cross_duplicate:
  assumes node: "product_node e i = Some p"
    and as: "as = map channel_id (case add_channels_in input of None \<Rightarrow> [] | Some xs \<Rightarrow> xs)"
    and rs: "rs = (case remove_channels_in input of None \<Rightarrow> [] | Some xs \<Rightarrow> xs)"
    and x: "x \<in> set as" "x \<in> set rs"
  shows "\<exists>errs.
           product_perform_mutation e d i input = (Inl errs, d)
         \<and> map_of errs ''input'' =
             Some [\<lparr>message =
                      ''The same object cannot be in both lists for adding and removing items.'',
                    code = DUPLICATED_INPUT_ITEM,
                    params_channels = get_duplicates_ids as rs\<rparr>]
         \<and> x \<in> set (get_duplicates_ids as rs)
         \<and> set (get_duplicates_ids as rs) = set as \<inter> set rs
         \<and> (\<forall>y \<in> set (all_errors errs). code y = DUPLICATED_INPUT_ITEM)
         \<and> (distinct as \<and> distinct rs \<longrightarrow>
              errs = [(''input'',
                       [\<lparr>message =
                           ''The same object cannot be in both lists for adding and removing items.'',
                         code = DUPLICATED_INPUT_ITEM,
                         params_channels = get_duplicates_ids as rs\<rparr>])])"
proof -
  let ?x = "\<lparr>message = ''The same object cannot be in both lists for adding and removing items.'',
             code = DUPLICATED_INPUT_ITEM, params_channels = get_duplicates_ids as rs\<rparr>"
  let ?e1 = "validate_duplicated_ids as rs []"
  let ?e2 = "validate_duplicated_values as ''add_channels'' ?e1"
  let ?errs = "validate_duplicated_values rs ''remove_channels'' ?e2"
  from x have common: "set as \<inter> set rs \<noteq> {}"
    by auto
  then have e1: "?e1 = [(''input'', [?x])]"
    by (simp add: validate_duplicated_ids_common)
  have run: "product_perform_mutation e d i input = (Inl ?errs, d)"
    by (rule product_perform_mutation_structural[OF node as rs]) (use common in simp)
  have m: "map_of ?errs ''input'' = Some [?x]"
    by (simp add: map_of_validate_duplicated_values e1)
  have "\<forall>y \<in> set (all_errors ?e1). code y = DUPLICATED_INPUT_ITEM"
    by (simp add: e1 all_errors_def)
  then have "\<forall>y \<in> set (all_errors ?e2). code y = DUPLICATED_INPUT_ITEM"
    by (rule code_validate_duplicated_values)
  then have codes: "\<forall>y \<in> set (all_errors ?errs). code y = DUPLICATED_INPUT_ITEM"
    by (rule code_validate_duplicated_values)
  have only: "?errs = [(''input'', [?x])]" if "distinct as \<and> distinct rs"
    using that by (simp add: validate_duplicated_values_distinct e1)
  have named: "x \<in> set (get_duplicates_ids as rs)"
    using x by (simp add: set_get_duplicates_ids)
  show ?thesis
  proof (intro exI[of _ ?errs] conjI impI)
    show "product_perform_mutation e d i input = (Inl ?errs, d)" by (rule run)
    show "map_of ?errs ''input'' = Some [?x]" by (rule m)
    show "x \<in> set (get_duplicates_ids as rs)" by (rule named)
    show "set (get_duplicates_ids as rs) = set as \<inter> set rs" by (rule set_get_duplicates_ids)
    show "\<forall>y \<in> set (all_errors ?errs). code y = DUPLICATED_INPUT_ITEM" by (rule codes)
    show "?errs = [(''input'', [?x])]" if "distinct as \<and> distinct rs"
      using that by (rule only)
  qed
qed

theorem C6_cross_duplicate_witness:
  "product_perform_mutation shop db_AB ''Q''
     \<lparr>add_channels_in =
        Some [\<lparr>channel_id = ''A'', is_published = False, publication_date = None\<rparr>],
      remove_channels_in = Some [''B'', ''A'']\<rparr>
   = (Inl [(''input'',
            [\<lparr>message = ''The same object cannot be in both lists for adding and removing items.'',
              code = DUPLICATED_INPUT_ITEM, params_channels = [''A'']\<rparr>])], db_AB)"
proof -
  let ?adds = "[\<lparr>channel_id = ''A'', is_published = False, publication_date = None\<rparr>]"
  let ?input = "\<lparr>add_channels_in = Some ?adds, remove_channels_in = Some [''B'', ''A'']\<rparr>"
  have h1: "product_node shop ''Q'' = Some prod_Q" by (simp add: shop_def)
  have h2: "[''A''] = map channel_id (case add_channels_in ?input of None \<Rightarrow> [] | Some xs \<Rightarrow> xs)"
    by simp
  have h3: "[''B'', ''A''] = (case remove_channels_in ?input of None \<Rightarrow> [] | Some xs \<Rightarrow> xs)"
    by simp
  have h4: "''A'' \<in> set [''A'']" and h5: "''A'' \<in> set [''B'', ''A'']"
    by simp_all
  have v: "get_duplicates_ids [''A''] [''B'', ''A''] = [''A'']"
    by (simp add: get_duplicates_ids_def)
  from C6_cross_duplicate[OF h1 h2 h3 h4 h5, of db_AB]
  show ?thesis
    by (auto simp: v)
qed

subsection \<open>C7: a repeated add identifier on a product without category\<close>

text \<open>
  Claim C7. The product has no category and the add-list names a channel identifier more
  than once. Then the clean stage returns the empty cleaned input whatever the
  identifiers resolve to (no entity is looked up), the mutation raises the errors of the
  structural checks and writes nothing, the field \<open>add_channels\<close> holds exactly one
  \<open>DUPLICATED_INPUT_ITEM\<close> error whose parameters are the repeated identifiers, and every
  error of the response has that code: none is \<open>PRODUCT_WITHOUT_CATEGORY\<close>, although an
  entry of the add-list may ask for publication. With no remove-list that error is the
  whole response.
\<close>

theorem C7_duplicate_in_add_list:
  assumes node: "product_node e i = Some p"
    and nocat: "category p = None"
    and adds: "add_channels_in input = Some adds"
    and dup: "\<not> distinct (map channel_id adds)"
  shows "\<exists>errs.
           product_perform_mutation e d i input = (Inl errs, d)
         \<and> (\<forall>e'. product_clean_channels e' input [] = Inr (empty_cleaned_input, errs))
         \<and> map_of errs ''add_channels'' =
             Some [\<lparr>message = ''Duplicated channel ID.'', code = DUPLICATED_INPUT_ITEM,
                    params_channels = get_duplicated_values (map channel_id adds)\<rparr>]
         \<and> (\<forall>x \<in> set (all_errors errs). code x = DUPLICATED_INPUT_ITEM)
         \<and> (remove_channels_in input = None \<longrightarrow>
              errs = [(''add_channels'',
                       [\<lparr>message = ''Duplicated channel ID.'', code = DUPLICATED_INPUT_ITEM,
                         params_channels = get_duplicated_values (map channel_id adds)\<rparr>])])
         \<and> set (get_duplicated_values (map channel_id adds)) =
             {a. 1 < count_list (map channel_id adds) a}"
proof -
  let ?ids = "map channel_id adds"
  let ?rem = "case remove_channels_in input of None \<Rightarrow> [] | Some xs \<Rightarrow> xs"
  let ?x = "\<lparr>message = ''Duplicated channel ID.'', code = DUPLICATED_INPUT_ITEM,
             params_channels = get_duplicated_values ?ids\<rparr>"
  let ?e1 = "validate_duplicated_ids ?ids ?rem []"
  let ?e2 = "errors_append ?e1 ''add_channels'' ?x"
  let ?errs = "validate_duplicated_values ?rem ''remove_channels'' ?e2"
  have e2: "validate_duplicated_values ?ids ''add_channels'' ?e1 = ?e2"
    using dup by (rule validate_duplicated_values_dup)
  have m2: "map_of ?e2 ''add_channels'' = Some [?x]"
    by (simp add: map_of_errors_append map_of_validate_duplicated_ids)
  have m3: "map_of ?errs ''add_channels'' = Some [?x]"
    using m2 by (simp add: map_of_validate_duplicated_values)
  then have ne: "?errs \<noteq> []"
    by auto
  have clean: "product_clean_channels e' input [] = Inr (empty_cleaned_input, ?errs)" for e'
    by (rule product_clean_channels_structural) (simp_all add: adds e2 ne)
  have run: "product_perform_mutation e d i input = (Inl ?errs, d)"
    using ne
    by (simp add: product_perform_mutation_def get_node_or_error_def node clean
        validate_product_without_category_empty)
  have "\<forall>x \<in> set (all_errors ?e1). code x = DUPLICATED_INPUT_ITEM"
    by (rule code_validate_duplicated_ids) (simp add: all_errors_def)
  then have "\<forall>x \<in> set (all_errors ?e2). code x = DUPLICATED_INPUT_ITEM"
    by (simp add: set_all_errors_append)
  then have codes: "\<forall>x \<in> set (all_errors ?errs). code x = DUPLICATED_INPUT_ITEM"
    by (rule code_validate_duplicated_values)
  have only: "?errs = [(''add_channels'', [?x])]" if "remove_channels_in input = None"
    using that
    by (simp add: validate_duplicated_values_distinct validate_duplicated_ids_disjoint)
  have dups: "set (get_duplicated_values ?ids) = {a. 1 < count_list ?ids a}"
    by (rule set_get_duplicated_values)
  show ?thesis
  proof (intro exI[of _ ?errs] conjI allI impI)
    show "product_perform_mutation e d i input = (Inl ?errs, d)" by (rule run)
    show "product_clean_channels e' input [] = Inr (empty_cleaned_input, ?errs)" for e'
      by (rule clean)
    show "map_of ?errs ''add_channels'' = Some [?x]" by (rule m3)
    show "\<forall>x \<in> set (all_errors ?errs). code x = DUPLICATED_INPUT_ITEM" by (rule codes)
    show "?errs = [(''add_channels'', [?x])]" if "remove_channels_in input = None"
      using that by (rule only)
    show "set (get_duplicated_values ?ids) = {a. 1 < count_list ?ids a}" by (rule dups)
  qed
qed

theorem C7_duplicate_in_add_list_witness:
  "product_perform_mutation shop empty_db ''P''
     \<lparr>add_channels_in =
        Some [\<lparr>channel_id = ''A'', is_published = True, publication_date = None\<rparr>,
              \<lparr>channel_id = ''A'', is_published = False, publication_date = None\<rparr>],
      remove_channels_in = None\<rparr>
   = (Inl [(''add_channels'',
            [\<lparr>message = ''Duplicated channel ID.'', code = DUPLICATED_INPUT_ITEM,
              params_channels = [''A'']\<rparr>])], empty_db)"
proof -
  let ?adds = "[\<lparr>channel_id = ''A'', is_published = True, publication_date = None\<rparr>,
                \<lparr>channel_id = ''A'', is_published = False, publication_date = None\<rparr>]"
  let ?input = "\<lparr>add_channels_in = Some ?adds, remove_channels_in = None\<rparr>"
  have h1: "product_node shop ''P'' = Some prod_P" by (simp add: shop_def)
  have h2: "category prod_P = None" by (simp add: prod_P_def)
  have h3: "add_channels_in ?input = Some ?adds" by simp
  have h4: "\<not> distinct (map channel_id ?adds)" by simp
  have v: "get_duplicated_values [''A'', ''A''] = [''A'']"
    by (simp add: get_duplicated_values_def)
  show ?thesis
    using C7_duplicate_in_add_list[OF h1 h2 h3 h4, of empty_db] by (auto simp: v)
qed

subsection \<open>C8: removing a channel that is not listed\<close>

text \<open>
  Claim C8. Take a request that only removes, with no identifier repeated. It never
  raises, whether or not its identifiers resolve: an identifier that does not resolve
  contributes no key and no error, and the table afterwards is the old one without the
  product's rows on the resolved keys. If the product has no row on any of those keys
  the database is unchanged, and running the same request again on the result changes
  nothing.
\<close>

theorem C8_remove_is_idempotent:
  assumes node: "product_node e i = Some p"
    and noadds: "(case add_channels_in input of None \<Rightarrow> [] | Some xs \<Rightarrow> xs) = []"
    and rs: "remove_channels_in input = Some rs"
    and dist: "distinct rs"
  shows "product_perform_mutation e d i input =
           (Inr p, d\<lparr>product_channel_listings :=
                       remove_channels_rows (product_channel_listings d) p
                         (resolve_global_ids_to_primary_keys e rs)\<rparr>)
       \<and> resolve_global_ids_to_primary_keys e rs =
           resolve_global_ids_to_primary_keys e (filter (\<lambda>r. channel_node e r \<noteq> None) rs)
       \<and> ((\<forall>r \<in> set (product_channel_listings d).
              \<not> (pcl_product r = product_pk p
                  \<and> pcl_channel r \<in> set (resolve_global_ids_to_primary_keys e rs)))
            \<longrightarrow> product_perform_mutation e d i input = (Inr p, d))
       \<and> product_perform_mutation e (snd (product_perform_mutation e d i input)) i input =
           (Inr p, snd (product_perform_mutation e d i input))"
proof -
  let ?pks = "resolve_global_ids_to_primary_keys e rs"
  have rs': "rs = (case remove_channels_in input of None \<Rightarrow> [] | Some xs \<Rightarrow> xs)"
    by (simp add: rs)
  have run: "product_perform_mutation e d0 i input =
      (Inr p, d0\<lparr>product_channel_listings :=
                  remove_channels_rows (product_channel_listings d0) p ?pks\<rparr>)" for d0
    using product_perform_mutation_resolved[OF node noadds[symmetric] rs', of d0] dist
    by (simp add: product_save_def Let_def)
  have dropped: "resolve_global_ids_to_primary_keys e xs =
      resolve_global_ids_to_primary_keys e (filter (\<lambda>r. channel_node e r \<noteq> None) xs)" for xs
    by (induction xs)
       (auto simp: resolve_global_ids_to_primary_keys_def List.map_filter_def)
  have noop: "product_perform_mutation e d i input = (Inr p, d)"
    if "\<forall>r \<in> set (product_channel_listings d).
              \<not> (pcl_product r = product_pk p \<and> pcl_channel r \<in> set ?pks)"
  proof -
    from that have "remove_channels_rows (product_channel_listings d) p ?pks =
        product_channel_listings d"
      unfolding remove_channels_rows_def by (simp add: filter_id_conv)
    then show ?thesis
      by (simp add: run)
  qed
  have twice: "remove_channels_rows (remove_channels_rows rows p ?pks) p ?pks =
      remove_channels_rows rows p ?pks" for rows
    by (simp add: remove_channels_rows_def)
  have again: "product_perform_mutation e (snd (product_perform_mutation e d i input)) i input =
           (Inr p, snd (product_perform_mutation e d i input))"
    by (simp add: run twice)
  from run[of d] dropped[of rs] noop again show ?thesis
    by blast
qed

theorem C8_remove_is_idempotent_witness:
  "product_perform_mutation shop db_AB ''Q''
     \<lparr>add_channels_in = None, remove_channels_in = Some [''C'', ''X'']\<rparr>
   = (Inr prod_Q, db_AB)
   \<and> resolve_global_ids_to_primary_keys shop [''C'', ''X''] = [3]"
proof -
  let ?input = "\<lparr>add_channels_in = None, remove_channels_in = Some [''C'', ''X'']\<rparr>"
  have h1: "product_node shop ''Q'' = Some prod_Q" by (simp add: shop_def)
  have h2: "(case add_channels_in ?input of None \<Rightarrow> [] | Some xs \<Rightarrow> xs) = []" by simp
  have h3: "remove_channels_in ?input = Some [''C'', ''X'']" by simp
  have h4: "distinct [''C'', ''X'']" by simp
  have pks: "resolve_global_ids_to_primary_keys shop [''C'', ''X''] = [3]"
    by (simp add: resolve_global_ids_to_primary_keys_def List.map_filter_def shop_defs)
  have h5: "\<forall>r \<in> set (product_channel_listings db_AB).
              \<not> (pcl_product r = product_pk prod_Q
                  \<and> pcl_channel r \<in> set (resolve_global_ids_to_primary_keys shop [''C'', ''X'']))"
    unfolding pks by (simp add: shop_defs)
  from C8_remove_is_idempotent[OF h1 h2 h3 h4, of db_AB,
      THEN conjunct2, THEN conjunct2, THEN conjunct1, THEN mp, OF h5] pks
  show ?thesis
    by simp
qed

subsection \<open>C9: upserts and deletes of one request\<close>

text \<open>
  Claim C9 says that the check of the add-list against the remove-list makes the
  upserted channels and the deleted keys disjoint. The check compares identifiers. In
  the shop \<open>''A''\<close> and \<open>''A2''\<close> both resolve to channel 1: the request that adds \<open>''A2''\<close>
  and removes \<open>''A''\<close> reaches the reconcile stage with channel 1 on both sides, the
  delete removes the row the upsert has just written, and deleting first would have
  given another table.
\<close>

theorem C9_counterexample:
  "product_clean_channels shop
     \<lparr>add_channels_in =
        Some [\<lparr>channel_id = ''A2'', is_published = True, publication_date = None\<rparr>],
      remove_channels_in = Some [''A'']\<rparr> []
   = Inr (\<lparr>add_channels =
             [(\<lparr>channel_id = ''A2'', is_published = True, publication_date = None\<rparr>, chan_A)],
           remove_channels = [1]\<rparr>, [])
   \<and> channel_pk chan_A \<in> set [1]
   \<and> product_perform_mutation shop empty_db ''Q''
        \<lparr>add_channels_in =
           Some [\<lparr>channel_id = ''A2'', is_published = True, publication_date = None\<rparr>],
         remove_channels_in = Some [''A'']\<rparr>
      = (Inr prod_Q, empty_db)
   \<and> add_channels_rows (remove_channels_rows [] prod_Q [1]) prod_Q
        [(\<lparr>channel_id = ''A2'', is_published = True, publication_date = None\<rparr>, chan_A)]
      = [\<lparr>pcl_product = 11, pcl_channel = 1, pcl_is_published = True,
          pcl_publication_date = None\<rparr>]"
  by (simp add: product_eval shop_defs Let_def)

text \<open>
  Claim C9, amended. Let an add identifier and a remove identifier of the request
  that resolve to the same channel always be the same identifier. Then, for a request
  that reaches the reconcile stage, every add identifier resolves to a channel, no
  upserted channel is among the deleted keys, every
  row the upserts write is still there after the deletes, and the table is the one that
  deleting first and upserting afterwards would give.
\<close>

theorem C9_upserts_and_deletes_apart:
  assumes run: "product_perform_mutation e d i input = (Inr p, d')"
    and adds: "adds = (case add_channels_in input of None \<Rightarrow> [] | Some xs \<Rightarrow> xs)"
    and rs: "rs = (case remove_channels_in input of None \<Rightarrow> [] | Some xs \<Rightarrow> xs)"
    and inj: "\<forall>a \<in> set adds. \<forall>r \<in> set rs. \<forall>c c'.
                channel_node e (channel_id a) = Some c \<and> channel_node e r = Some c'
                \<and> channel_pk c = channel_pk c' \<longrightarrow> channel_id a = r"
  shows "(\<forall>a \<in> set adds. channel_node e (channel_id a) \<noteq> None)
       \<and> (\<lambda>a. channel_pk (the (channel_node e (channel_id a)))) ` set adds
           \<inter> set (resolve_global_ids_to_primary_keys e rs) = {}
       \<and> (\<forall>a \<in> set adds. \<exists>r \<in> set (product_channel_listings d').
             pcl_product r = product_pk p
             \<and> pcl_channel r = channel_pk (the (channel_node e (channel_id a))))
       \<and> product_channel_listings d' =
           add_channels_rows
             (remove_channels_rows (product_channel_listings d) p
                (resolve_global_ids_to_primary_keys e rs))
             p (map (\<lambda>a. (a, the (channel_node e (channel_id a)))) adds)"
proof -
  let ?ch = "\<lambda>a. the (channel_node e (channel_id a))"
  let ?pairs = "map (\<lambda>a. (a, ?ch a)) adds"
  let ?pks = "resolve_global_ids_to_primary_keys e rs"
  let ?rows = "product_channel_listings d"
  note ok = product_perform_mutation_success[OF run adds rs]
  have rows': "product_channel_listings d' =
      remove_channels_rows (add_channels_rows ?rows p ?pairs) p ?pks"
    by (simp add: ok(6) product_save_def)
  have apart: "(\<lambda>a. channel_pk (?ch a)) ` set adds \<inter> set ?pks = {}"
  proof (rule ccontr)
    assume "\<not> ?thesis"
    then obtain a where a: "a \<in> set adds" and k: "channel_pk (?ch a) \<in> set ?pks"
      by auto
    from k obtain r c' where r: "r \<in> set rs" and c': "channel_node e r = Some c'"
      and eq: "channel_pk c' = channel_pk (?ch a)"
      unfolding set_resolve_global_ids_to_primary_keys by auto
    from ok(5) a obtain c where c: "channel_node e (channel_id a) = Some c"
      by auto
    with inj a r c' eq have "channel_id a = r"
      by auto
    with a r ok(2) show False
      by auto
  qed
  have img: "(\<lambda>(a, c). channel_pk c) ` set ?pairs = (\<lambda>a. channel_pk (?ch a)) ` set adds"
    by (auto simp: image_iff)
  have commute: "product_channel_listings d' =
      add_channels_rows (remove_channels_rows ?rows p ?pks) p ?pairs"
    unfolding rows'
    by (rule remove_add_channels_rows_commute) (simp only: img apart)
  have kept: "\<exists>r \<in> set (product_channel_listings d').
             pcl_product r = product_pk p \<and> pcl_channel r = channel_pk (?ch a)"
    if a: "a \<in> set adds" for a
  proof -
    have "(product_pk p, channel_pk (?ch a))
        \<in> set (map (\<lambda>r. (pcl_product r, pcl_channel r)) (add_channels_rows ?rows p ?pairs))"
      unfolding keys_add_channels_rows using a by (auto simp: image_iff)
    then obtain r where r: "r \<in> set (add_channels_rows ?rows p ?pairs)"
      and key: "pcl_product r = product_pk p" "pcl_channel r = channel_pk (?ch a)"
      by auto
    from apart a have "channel_pk (?ch a) \<notin> set ?pks"
      by auto
    with r key have "r \<in> set (product_channel_listings d')"
      by (simp add: rows' set_remove_channels_rows)
    with key show ?thesis
      by blast
  qed
  from ok(5) apart kept commute show ?thesis
    by blast
qed

theorem C9_upserts_and_deletes_apart_witness:
  "product_perform_mutation shop db_AB ''Q''
     \<lparr>add_channels_in =
        Some [\<lparr>channel_id = ''C'', is_published = True, publication_date = None\<rparr>],
      remove_channels_in = Some [''A'']\<rparr>
   = (Inr prod_Q,
      db_AB\<lparr>product_channel_listings :=
        [\<lparr>pcl_product = 11, pcl_channel = 2, pcl_is_published = False,
          pcl_publication_date = None\<rparr>,
         \<lparr>pcl_product = 11, pcl_channel = 3, pcl_is_published = True,
          pcl_publication_date = None\<rparr>]\<rparr>)
   \<and> {3} \<inter> set [1 :: int] = {}
   \<and> [\<lparr>pcl_product = 11, pcl_channel = 2, pcl_is_published = False,
          pcl_publication_date = None\<rparr>,
         \<lparr>pcl_product = 11, pcl_channel = 3, pcl_is_published = True,
          pcl_publication_date = None\<rparr>]
      = add_channels_rows (remove_channels_rows (product_channel_listings db_AB) prod_Q [1])
          prod_Q [(\<lparr>channel_id = ''C'', is_published = True, publication_date = None\<rparr>, chan_C)]"
proof -
  let ?adds = "[\<lparr>channel_id = ''C'', is_published = True, publication_date = None\<rparr>]"
  let ?input = "\<lparr>add_channels_in = Some ?adds, remove_channels_in = Some [''A'']\<rparr>"
  let ?d' = "db_AB\<lparr>product_channel_listings :=
        [\<lparr>pcl_product = 11, pcl_channel = 2, pcl_is_published = False,
          pcl_publication_date = None\<rparr>,
         \<lparr>pcl_product = 11, pcl_channel = 3, pcl_is_published = True,
          pcl_publication_date = None\<rparr>]\<rparr>"
  have run: "product_perform_mutation shop db_AB ''Q'' ?input = (Inr prod_Q, ?d')"
    by (simp add: product_eval shop_defs Let_def)
  have h1: "?adds = (case add_channels_in ?input of None \<Rightarrow> [] | Some xs \<Rightarrow> xs)" by simp
  have h2: "[''A''] = (case remove_channels_in ?input of None \<Rightarrow> [] | Some xs \<Rightarrow> xs)"
    by simp
  have h3: "\<forall>a \<in> set ?adds. \<forall>r \<in> set [''A'']. \<forall>c c'.
                channel_node shop (channel_id a) = Some c \<and> channel_node shop r = Some c'
                \<and> channel_pk c = channel_pk c' \<longrightarrow> channel_id a = r"
    by (simp add: shop_defs)
  have pks: "resolve_global_ids_to_primary_keys shop [''A''] = [1]"
    by (simp add: resolve_global_ids_to_primary_keys_def List.map_filter_def shop_defs)
  from C9_upserts_and_deletes_apart[OF run h1 h2 h3]
  show ?thesis
    unfolding pks using run by (simp add: shop_defs)
qed

subsection \<open>C10: an absent price\<close>

text \<open>
  Claim C10. The price check of the variant mutation returns the cleaned input as it
  is and adds an \<open>INVALID\<close> error exactly when some entry has a price that is present and
  strictly below zero; the error names those entries and no entry without a price. A
  request whose entries all lack a price passes the price check, so with distinct
  resolving identifiers and listed channels it reaches the reconcile stage. When the
  mutation returns, an entry without a price is stored with \<open>price_amount = None\<close> (as
  long as no later entry of the request resolves to the same channel).
\<close>

theorem C10_absent_price:
  "clean_prices cleaned errs =
     (cleaned,
      if filter (\<lambda>(a, c). \<exists>p. price a = Some p \<and> p < 0) cleaned \<noteq> []
      then errors_append errs ''price''
             \<lparr>message = ''Product price cannot be lower than 0.'', code = INVALID,
              params_channels =
                map (\<lambda>(a, c). vchannel_id a)
                  (filter (\<lambda>(a, c). \<exists>p. price a = Some p \<and> p < 0) cleaned)\<rparr>
      else errs)
   \<and> (\<forall>(a, c) \<in> set cleaned. price a = None \<longrightarrow>
         (a, c) \<notin> set (filter (\<lambda>(a, c). \<exists>p. price a = Some p \<and> p < 0) cleaned))
   \<and> ((\<forall>(a, c) \<in> set cleaned. price a = None) \<longrightarrow> clean_prices cleaned errs = (cleaned, errs))
   \<and> (variant_node e i = Some v \<and> distinct (map vchannel_id input)
        \<and> (\<forall>a \<in> set input. \<exists>c. channel_node e (vchannel_id a) = Some c
              \<and> (\<exists>r \<in> set (product_channel_listings d).
                    pcl_product r = product_id v \<and> pcl_channel r = channel_pk c))
        \<and> (\<forall>a \<in> set input. price a = None)
      \<longrightarrow> (\<exists>d'. variant_perform_mutation e d i input = (Inr v, d')))
   \<and> (\<forall>xs a ys c d'. variant_perform_mutation e d i input = (Inr v, d')
        \<and> input = xs @ a # ys \<and> price a = None \<and> channel_node e (vchannel_id a) = Some c
        \<and> (\<forall>b \<in> set ys. channel_pk (the (channel_node e (vchannel_id b))) \<noteq> channel_pk c)
      \<longrightarrow>
        {r \<in> set (variant_channel_listings d').
           vcl_variant r = variant_pk v \<and> vcl_channel r = channel_pk c} =
        {\<lparr>vcl_variant = variant_pk v, vcl_channel = channel_pk c,
          price_amount = None, currency = currency_code c\<rparr>})"
proof -
  let ?neg = "\<lambda>(a :: product_variant_channel_listing_add_input, c :: channel).
                \<exists>p. price a = Some p \<and> p < 0"
  have p1: "clean_prices cleaned errs =
     (cleaned,
      if filter ?neg cleaned \<noteq> []
      then errors_append errs ''price''
             \<lparr>message = ''Product price cannot be lower than 0.'', code = INVALID,
              params_channels = map (\<lambda>(a, c). vchannel_id a) (filter ?neg cleaned)\<rparr>
      else errs)"
    by (simp add: clean_prices_eq Let_def)
  have p2: "\<forall>(a, c) \<in> set cleaned. price a = None \<longrightarrow> (a, c) \<notin> set (filter ?neg cleaned)"
    by auto
  have none: "filter ?neg xs = []" if "\<forall>(a, c) \<in> set xs. price a = None" for xs
    using that by (auto simp: filter_empty_conv)
  have p3: "clean_prices cleaned errs = (cleaned, errs)"
    if "\<forall>(a, c) \<in> set cleaned. price a = None"
    unfolding p1 using none[OF that] by simp
  have p4: "\<exists>d'. variant_perform_mutation e d i input = (Inr v, d')"
    if h: "variant_node e i = Some v \<and> distinct (map vchannel_id input)
        \<and> (\<forall>a \<in> set input. \<exists>c. channel_node e (vchannel_id a) = Some c
              \<and> (\<exists>r \<in> set (product_channel_listings d).
                    pcl_product r = product_id v \<and> pcl_channel r = channel_pk c))
        \<and> (\<forall>a \<in> set input. price a = None)"
  proof -
    let ?cleaned = "map (\<lambda>a. (a, the (channel_node e (vchannel_id a)))) input"
    from h have res: "\<forall>a \<in> set input. channel_node e (vchannel_id a) \<noteq> None"
      by auto
    have "filter (\<lambda>(a, c). \<not> (\<exists>r \<in> set (product_channel_listings d).
             pcl_product r = product_id v \<and> pcl_channel r = channel_pk c)) ?cleaned = []"
      using h by (fastforce simp: filter_empty_conv)
    then have e2: "validate_product_assigned_to_channel d v ?cleaned [] = []"
      by (simp add: validate_product_assigned_to_channel_eq)
    have "\<forall>(a, c) \<in> set ?cleaned. price a = None"
      using h by auto
    from none[OF this] have e3: "snd (clean_prices ?cleaned []) = []"
      by (simp add: clean_prices_eq)
    from h res have "variant_perform_mutation e d i input = (Inr v, variant_save d v ?cleaned)"
      by (simp add: variant_perform_mutation_cleaned e2 e3)
    then show ?thesis ..
  qed
  have p5: "{r \<in> set (variant_channel_listings d').
           vcl_variant r = variant_pk v \<and> vcl_channel r = channel_pk c} =
        {\<lparr>vcl_variant = variant_pk v, vcl_channel = channel_pk c,
          price_amount = None, currency = currency_code c\<rparr>}"
    if h: "variant_perform_mutation e d i input = (Inr v, d')
        \<and> input = xs @ a # ys \<and> price a = None \<and> channel_node e (vchannel_id a) = Some c
        \<and> (\<forall>b \<in> set ys. channel_pk (the (channel_node e (vchannel_id b))) \<noteq> channel_pk c)"
    for xs a ys c d'
  proof -
    let ?pair = "\<lambda>a. (a, the (channel_node e (vchannel_id a)))"
    from h have run: "variant_perform_mutation e d i input = (Inr v, d')"
      by (rule conjunct1)
    have rows': "variant_channel_listings d' =
        variant_save_rows (variant_channel_listings d) v (map ?pair input)"
      by (simp add: variant_perform_mutation_success(4)[OF run] variant_save_def)
    have "\<forall>(a', c') \<in> set (map ?pair ys). channel_pk c' \<noteq> channel_pk c"
      using h by auto
    from variant_save_rows_last[OF this, of "variant_channel_listings d" v "map ?pair xs" a] h
    show ?thesis
      by (simp add: rows')
  qed
  show ?thesis
    using p1 p2 p3 p4 p5 by blast
qed

theorem C10_absent_price_witness:
  "variant_perform_mutation shop db_AB ''V''
        [\<lparr>vchannel_id = ''A'', price = Some 10\<rparr>, \<lparr>vchannel_id = ''B'', price = None\<rparr>]
     = (Inr var_V,
        db_AB\<lparr>variant_channel_listings :=
          [\<lparr>vcl_variant = 100, vcl_channel = 1, price_amount = Some 10, currency = ''USD''\<rparr>,
           \<lparr>vcl_variant = 100, vcl_channel = 2, price_amount = None, currency = ''EUR''\<rparr>]\<rparr>)
   \<and> {r \<in> set [\<lparr>vcl_variant = 100, vcl_channel = 1, price_amount = Some 10, currency = ''USD''\<rparr>,
                \<lparr>vcl_variant = 100, vcl_channel = 2, price_amount = None, currency = ''EUR''\<rparr>].
         vcl_variant r = 100 \<and> vcl_channel r = 2}
       = {\<lparr>vcl_variant = 100, vcl_channel = 2, price_amount = None, currency = ''EUR''\<rparr>}"
proof -
  let ?a = "\<lparr>vchannel_id = ''A'', price = Some 10\<rparr>"
  let ?b = "\<lparr>vchannel_id = ''B'', price = None\<rparr>"
  let ?d' = "db_AB\<lparr>variant_channel_listings :=
          [\<lparr>vcl_variant = 100, vcl_channel = 1, price_amount = Some 10, currency = ''USD''\<rparr>,
           \<lparr>vcl_variant = 100, vcl_channel = 2, price_amount = None, currency = ''EUR''\<rparr>]\<rparr>"
  have run: "variant_perform_mutation shop db_AB ''V'' [?a, ?b] = (Inr var_V, ?d')"
    by (simp add: variant_eval shop_defs)
  have h: "variant_perform_mutation shop db_AB ''V'' [?a, ?b] = (Inr var_V, ?d')
      \<and> [?a, ?b] = [?a] @ ?b # [] \<and> price ?b = None
      \<and> channel_node shop (vchannel_id ?b) = Some chan_B
      \<and> (\<forall>b \<in> set []. channel_pk (the (channel_node shop (vchannel_id b))) \<noteq> channel_pk chan_B)"
    using run by (simp add: shop_defs)
  from C10_absent_price[of _ _ shop "''V''" var_V "[?a, ?b]" db_AB,
      THEN conjunct2, THEN conjunct2, THEN conjunct2, THEN conjunct2, rule_format, OF h]
  show ?thesis
    using run by (simp add: shop_defs)
qed

end
